theory Spec2Isabelle
  imports Main "HOL-Library.AList" "HOL-Library.Word"
begin

section \<open>JavaScript values that the widget marshals\<close>

text \<open>
  The widget of \<^verbatim>\<open>psp_widget.ts\<close> stores its configuration in attributes of the
  viewer element, as JSON text. The values it handles are values of JavaScript: objects
  are lists of properties in enumeration order, arrays are lists, and a string is the
  list of the bytes of its UTF-8 encoding (the widget never counts the units of a
  string; a string with a lone surrogate has no such encoding and is left out). A
  number is a double of JavaScript. Of the numbers the model has the integers from
  \<open>-2\<^sup>5\<^sup>3\<close> up to \<open>2\<^sup>5\<^sup>3\<close>, exclusive above, kept as words of 54 bits read with
  their sign: each of them is a double, written by JavaScript in decimal with all its
  digits. It has NaN as well. Every other number (the fractions, the larger integers,
  the infinities, the negative zero) stays outside this development.
  \<^verbatim>\<open>JSON.stringify\<close> and \<^verbatim>\<open>JSON.parse\<close> are functions of the language, not of the
  widget; they are written out below for these values, after their definition in
  ECMAScript.
\<close>

datatype json =
    JNull
  | JBool bool
  | JNum "54 word"
  | JNaN
  | JStr string
  | JArr "json list"
  | JObj "(string \<times> json) list"

text \<open>
  The exceptions. \<open>Unsupported\<close> is no exception of JavaScript: it is the answer of
  the parser on a text with a number or a string that the model does not have.
  \<open>OutOfFuel\<close> is the end of the bound of calls of the parser.
\<close>

datatype exn = SyntaxError | TypeError | Unsupported | OutOfFuel

abbreviation dquote :: char where "dquote \<equiv> CHR 0x22"
abbreviation bslash :: char where "bslash \<equiv> CHR 0x5C"

text \<open>ToBoolean, as the operators \<^verbatim>\<open>||\<close> and \<^verbatim>\<open>if\<close> of the source apply it.\<close>

fun truthy :: "json \<Rightarrow> bool" where
  "truthy JNull = False"
| "truthy (JBool b) = b"
| "truthy (JNum n) = (n \<noteq> 0)"
| "truthy JNaN = False"
| "truthy (JStr s) = (s \<noteq> [])"
| "truthy (JArr xs) = True"
| "truthy (JObj ps) = True"

text \<open>
  \<^verbatim>\<open>a || b\<close> where \<^verbatim>\<open>a\<close> and \<^verbatim>\<open>b\<close> may be undefined (\<open>None\<close>), and
  \<^verbatim>\<open>a || d\<close> with a default \<^verbatim>\<open>d\<close> that is defined. The first argument is the
  truthiness of the values of the type at hand.
\<close>

definition js_or :: "('a \<Rightarrow> bool) \<Rightarrow> 'a option \<Rightarrow> 'a option \<Rightarrow> 'a option" where
  "js_or t a b = (case a of None \<Rightarrow> b | Some v \<Rightarrow> if t v then Some v else b)"

definition js_or_default :: "('a \<Rightarrow> bool) \<Rightarrow> 'a option \<Rightarrow> 'a \<Rightarrow> 'a" where
  "js_or_default t a d = (case a of None \<Rightarrow> d | Some v \<Rightarrow> if t v then v else d)"

definition truthy_string :: "string \<Rightarrow> bool" where
  "truthy_string s = (s \<noteq> [])"

definition truthy_bool :: "bool \<Rightarrow> bool" where
  "truthy_bool b = b"

text \<open>Arrays and objects are truthy, the empty ones too.\<close>

definition truthy_object :: "'a \<Rightarrow> bool" where
  "truthy_object x = True"

subsection \<open>Number to string\<close>

text \<open>An integer is written in decimal, without leading zeros, the sign first.\<close>

definition digit_char :: "nat \<Rightarrow> char" where
  "digit_char d = ''0123456789abcdef'' ! d"

fun show_nat :: "nat \<Rightarrow> string" where
  "show_nat n = (if n < 10 then [digit_char n] else show_nat (n div 10) @ [digit_char (n mod 10)])"

declare show_nat.simps [simp del]

definition show_int :: "int \<Rightarrow> string" where
  "show_int i = (if i < 0 then CHR ''-'' # show_nat (nat (- i)) else show_nat (nat i))"

subsection \<open>JSON.stringify\<close>

text \<open>
  QuoteJSONString: the quote, the backslash and the control characters are escaped,
  every other code unit is copied.
\<close>

definition quote_char :: "char \<Rightarrow> string" where
  "quote_char c =
    (if c = dquote then [bslash, dquote]
     else if c = bslash then [bslash, bslash]
     else if c = CHR 0x08 then [bslash, CHR ''b'']
     else if c = CHR 0x0C then [bslash, CHR ''f'']
     else if c = CHR 0x0A then [bslash, CHR ''n'']
     else if c = CHR 0x0D then [bslash, CHR ''r'']
     else if c = CHR 0x09 then [bslash, CHR ''t'']
     else if (of_char c :: nat) < 32
       then [bslash, CHR ''u'', CHR ''0'', CHR ''0'',
             digit_char (of_char c div 16), digit_char (of_char c mod 16)]
     else [c])"

definition quote_chars :: "string \<Rightarrow> string" where
  "quote_chars s = concat (map quote_char s)"

definition quote :: "string \<Rightarrow> string" where
  "quote s = dquote # quote_chars s @ [dquote]"

text \<open>
  SerializeJSONProperty without indentation: no white space, elements and members
  separated by commas, members in the enumeration order of the object. NaN is written
  \<^verbatim>\<open>null\<close>.
\<close>

fun JSON_stringify :: "json \<Rightarrow> string"
  and stringify_elements :: "json list \<Rightarrow> string"
  and stringify_members :: "(string \<times> json) list \<Rightarrow> string" where
  "JSON_stringify JNull = ''null''"
| "JSON_stringify (JBool b) = (if b then ''true'' else ''false'')"
| "JSON_stringify (JNum n) = show_int (sint n)"
| "JSON_stringify JNaN = ''null''"
| "JSON_stringify (JStr s) = quote s"
| "JSON_stringify (JArr xs) = CHR ''['' # stringify_elements xs @ '']''"
| "JSON_stringify (JObj ps) = CHR ''{'' # stringify_members ps @ ''}''"
| "stringify_elements [] = []"
| "stringify_elements [x] = JSON_stringify x"
| "stringify_elements (x # y # ys) = JSON_stringify x @ CHR '','' # stringify_elements (y # ys)"
| "stringify_members [] = []"
| "stringify_members [(k, v)] = quote k @ CHR '':'' # JSON_stringify v"
| "stringify_members ((k, v) # q # qs) =
     quote k @ CHR '':'' # JSON_stringify v @ CHR '','' # stringify_members (q # qs)"

subsection \<open>JSON.parse\<close>

text \<open>
  The parser follows the JSON grammar: white space between tokens, the three literals,
  numbers, strings with their escapes, arrays and objects. A text outside the grammar
  gives \<open>SyntaxError\<close>, the exception that \<^verbatim>\<open>JSON.parse\<close> throws. A numeral that
  denotes no integer of the range of the model, and an escape of a lone surrogate, give
  \<open>Unsupported\<close>.
\<close>

definition is_ws :: "char \<Rightarrow> bool" where
  "is_ws c = (c = CHR '' '' \<or> c = CHR 0x09 \<or> c = CHR 0x0A \<or> c = CHR 0x0D)"

definition skip_ws :: "string \<Rightarrow> string" where
  "skip_ws s = dropWhile is_ws s"

definition is_digit :: "char \<Rightarrow> bool" where
  "is_digit c = (48 \<le> (of_char c :: nat) \<and> (of_char c :: nat) \<le> 57)"

definition digit_val :: "char \<Rightarrow> nat" where
  "digit_val c = of_char c - 48"

definition digits_val :: "string \<Rightarrow> nat" where
  "digits_val ds = foldl (\<lambda>a c. 10 * a + digit_val c) 0 ds"

definition hex_val :: "char \<Rightarrow> nat option" where
  "hex_val c =
     (let n = (of_char c :: nat)
      in if 48 \<le> n \<and> n \<le> 57 then Some (n - 48)
         else if 97 \<le> n \<and> n \<le> 102 then Some (n - 87)
         else if 65 \<le> n \<and> n \<le> 70 then Some (n - 55)
         else None)"

definition unescape :: "char \<Rightarrow> char option" where
  "unescape e =
     (if e = dquote then Some dquote
      else if e = bslash then Some bslash
      else if e = CHR ''/'' then Some (CHR ''/'')
      else if e = CHR ''b'' then Some (CHR 0x08)
      else if e = CHR ''f'' then Some (CHR 0x0C)
      else if e = CHR ''n'' then Some (CHR 0x0A)
      else if e = CHR ''r'' then Some (CHR 0x0D)
      else if e = CHR ''t'' then Some (CHR 0x09)
      else None)"

text \<open>The characters of a string, after its opening quote, up to the closing one.\<close>

definition prepend :: "string \<Rightarrow> exn + string \<times> string \<Rightarrow> exn + string \<times> string" where
  "prepend p res = (case res of Inl e \<Rightarrow> Inl e | Inr (s, r) \<Rightarrow> Inr (p @ s, r))"

text \<open>
  The four hexadecimal digits of an escape \<^verbatim>\<open>\u\<close> give a code unit; fewer than four
  characters, or one that is no hexadecimal digit, is an error of syntax.
\<close>

definition hex4 :: "string \<Rightarrow> nat option" where
  "hex4 hs =
     (if length hs = 4 \<and> list_all (\<lambda>h. hex_val h \<noteq> None) hs
      then Some (foldl (\<lambda>a h. 16 * a + the (hex_val h)) 0 hs)
      else None)"

text \<open>The bytes of a code point in UTF-8.\<close>

definition utf8 :: "nat \<Rightarrow> string" where
  "utf8 cp =
     (if cp < 0x80 then [char_of cp]
      else if cp < 0x800 then [char_of (0xC0 + cp div 0x40), char_of (0x80 + cp mod 0x40)]
      else if cp < 0x10000 then
        [char_of (0xE0 + cp div 0x1000), char_of (0x80 + cp div 0x40 mod 0x40),
         char_of (0x80 + cp mod 0x40)]
      else
        [char_of (0xF0 + cp div 0x40000), char_of (0x80 + cp div 0x1000 mod 0x40),
         char_of (0x80 + cp div 0x40 mod 0x40), char_of (0x80 + cp mod 0x40)])"

text \<open>
  An escape \<^verbatim>\<open>\u\<close> of a code unit that is no surrogate is a code point. The escape of
  a high surrogate and the escape of a low surrogate right after it are one code point.
  A surrogate without its other half is a string that the model does not have.
\<close>

fun parse_chars :: "string \<Rightarrow> exn + string \<times> string" where
  "parse_chars [] = Inl SyntaxError"
| "parse_chars (c # cs) =
     (if c = dquote then Inr ([], cs)
      else if c = bslash then
        (case cs of
           [] \<Rightarrow> Inl SyntaxError
         | e # r \<Rightarrow>
             if e = CHR ''u'' then
               (case hex4 (take 4 r) of
                  None \<Rightarrow> Inl SyntaxError
                | Some u \<Rightarrow>
                    if u < 0xD800 \<or> 0xE000 \<le> u then prepend (utf8 u) (parse_chars (drop 4 r))
                    else if 0xDC00 \<le> u then Inl Unsupported
                    else if take 2 (drop 4 r) = [bslash, CHR ''u''] then
                      (case hex4 (take 4 (drop 6 r)) of
                         None \<Rightarrow> Inl SyntaxError
                       | Some l \<Rightarrow>
                           if 0xDC00 \<le> l \<and> l < 0xE000
                           then prepend (utf8 (0x10000 + (u - 0xD800) * 0x400 + (l - 0xDC00)))
                                  (parse_chars (drop 10 r))
                           else Inl Unsupported)
                    else Inl Unsupported)
             else (case unescape e of
                     None \<Rightarrow> Inl SyntaxError
                   | Some x \<Rightarrow> prepend [x] (parse_chars r)))
      else if (of_char c :: nat) < 32 then Inl SyntaxError
      else prepend [c] (parse_chars cs))"

text \<open>
  A numeral: an optional minus, the digits of the integer part without a leading zero,
  an optional fraction of a point and digits, an optional exponent of \<^verbatim>\<open>e\<close>, a sign
  and digits. \<open>None\<close> is a numeral cut short.
\<close>

definition number_fraction :: "string \<Rightarrow> (string \<times> string) option" where
  "number_fraction r =
     (if r \<noteq> [] \<and> hd r = CHR ''.'' then
        (if takeWhile is_digit (tl r) = [] then None
         else Some (takeWhile is_digit (tl r), dropWhile is_digit (tl r)))
      else Some ([], r))"

definition number_exponent :: "string \<Rightarrow> (int \<times> string) option" where
  "number_exponent r =
     (if r \<noteq> [] \<and> (hd r = CHR ''e'' \<or> hd r = CHR ''E'') then
        (let t = tl r;
             minus = (t \<noteq> [] \<and> hd t = CHR ''-'');
             t1 = (if t \<noteq> [] \<and> (hd t = CHR ''-'' \<or> hd t = CHR ''+'') then tl t else t);
             es = takeWhile is_digit t1
         in if es = [] then None
            else Some (if minus then - int (digits_val es) else int (digits_val es),
                       dropWhile is_digit t1))
      else Some (0, r))"

text \<open>
  The numeral with the digits \<open>m\<close> and the decimal exponent \<open>k\<close> denotes the number
  \<open>m \<times> 10\<^sup>k\<close>, with its sign. When that is an integer of the range of the model it is
  a double, and it is the number that JavaScript reads. Every other numeral, the
  negative zero too, denotes a number outside the model.
\<close>

definition in_range :: "int \<Rightarrow> int option" where
  "in_range q = (if - (2 ^ 53) \<le> q \<and> q < 2 ^ 53 then Some q else None)"

definition number_value :: "bool \<Rightarrow> nat \<Rightarrow> int \<Rightarrow> int option" where
  "number_value negative m k =
     (if m = 0 then (if negative then None else Some 0)
      else if 0 \<le> k then in_range ((if negative then - 1 else 1) * (int m * 10 ^ nat k))
      else if m mod 10 ^ nat (- k) \<noteq> 0 then None
      else in_range ((if negative then - 1 else 1) * int (m div 10 ^ nat (- k))))"

definition parse_number :: "string \<Rightarrow> exn + json \<times> string" where
  "parse_number s =
     (let negative = (s \<noteq> [] \<and> hd s = CHR ''-'');
          s1 = (if negative then tl s else s);
          ds = takeWhile is_digit s1;
          r = dropWhile is_digit s1
      in if ds = [] then Inl SyntaxError
         else if hd ds = CHR ''0'' \<and> length ds > 1 then Inl SyntaxError
         else
           (case number_fraction r of
              None \<Rightarrow> Inl SyntaxError
            | Some (fs, r2) \<Rightarrow>
                (case number_exponent r2 of
                   None \<Rightarrow> Inl SyntaxError
                 | Some (e, r3) \<Rightarrow>
                     (case number_value negative (digits_val (ds @ fs)) (e - int (length fs)) of
                        None \<Rightarrow> Inl Unsupported
                      | Some q \<Rightarrow> Inr (JNum (word_of_int q), r3)))))"

text \<open>
  An object enumerates its properties with the names that are array indices first, in
  ascending order, and the other names after them, in the order in which they were
  defined. An array index is the decimal numeral, without a leading zero, of an integer
  below \<open>2\<^sup>3\<^sup>2 - 1\<close>.
\<close>

definition array_index :: "string \<Rightarrow> nat option" where
  "array_index k =
     (if k \<noteq> [] \<and> list_all is_digit k \<and> (length k = 1 \<or> hd k \<noteq> CHR ''0'') \<and>
         digits_val k < 4294967295
      then Some (digits_val k) else None)"

fun insert_index ::
  "nat \<Rightarrow> string \<times> json \<Rightarrow> (string \<times> json) list \<Rightarrow> (string \<times> json) list" where
  "insert_index i p [] = [p]"
| "insert_index i p (q # ps) =
     (case array_index (fst q) of
        None \<Rightarrow> p # q # ps
      | Some j \<Rightarrow> if j < i then q # insert_index i p ps else p # q # ps)"

text \<open>
  A member of an object text defines a property: of a name that occurs twice the
  last value stays, at the place of the first; a new name takes its place in the
  enumeration.
\<close>

definition put_property ::
  "string \<Rightarrow> json \<Rightarrow> (string \<times> json) list \<Rightarrow> (string \<times> json) list" where
  "put_property k v ps =
     (if k \<in> set (map fst ps) then AList.update k v ps
      else case array_index k of
             None \<Rightarrow> ps @ [(k, v)]
           | Some i \<Rightarrow> insert_index i (k, v) ps)"

definition make_object :: "(string \<times> json) list \<Rightarrow> (string \<times> json) list" where
  "make_object ps = foldl (\<lambda>acc (k, v). put_property k v acc) [] ps"

text \<open>
  Values nest, so the parser is recursive on a bound of the number of calls; twice the
  length of the text and one is enough for every text.
\<close>

fun parse_value :: "nat \<Rightarrow> string \<Rightarrow> exn + json \<times> string"
  and parse_elements :: "nat \<Rightarrow> string \<Rightarrow> exn + json list \<times> string"
  and parse_members :: "nat \<Rightarrow> string \<Rightarrow> exn + (string \<times> json) list \<times> string" where
  "parse_value 0 s = Inl OutOfFuel"
| "parse_value (Suc n) s =
     (case skip_ws s of
        [] \<Rightarrow> Inl SyntaxError
      | c # cs \<Rightarrow>
          if c = CHR ''['' then
            (case skip_ws cs of
               [] \<Rightarrow> Inl SyntaxError
             | d # ds \<Rightarrow>
                 if d = CHR '']'' then Inr (JArr [], ds)
                 else (case parse_elements n (d # ds) of
                         Inl e \<Rightarrow> Inl e
                       | Inr (xs, r) \<Rightarrow> Inr (JArr xs, r)))
          else if c = CHR ''{'' then
            (case skip_ws cs of
               [] \<Rightarrow> Inl SyntaxError
             | d # ds \<Rightarrow>
                 if d = CHR ''}'' then Inr (JObj [], ds)
                 else (case parse_members n (d # ds) of
                         Inl e \<Rightarrow> Inl e
                       | Inr (ps, r) \<Rightarrow> Inr (JObj (make_object ps), r)))
          else if c = dquote then
            (case parse_chars cs of
               Inl e \<Rightarrow> Inl e
             | Inr (str, r) \<Rightarrow> Inr (JStr str, r))
          else if c = CHR ''-'' \<or> is_digit c then parse_number (c # cs)
          else if take 4 (c # cs) = ''null'' then Inr (JNull, drop 4 (c # cs))
          else if take 4 (c # cs) = ''true'' then Inr (JBool True, drop 4 (c # cs))
          else if take 5 (c # cs) = ''false'' then Inr (JBool False, drop 5 (c # cs))
          else Inl SyntaxError)"
| "parse_elements 0 s = Inl OutOfFuel"
| "parse_elements (Suc n) s =
     (case parse_value n s of
        Inl e \<Rightarrow> Inl e
      | Inr (x, r) \<Rightarrow>
          (case skip_ws r of
             [] \<Rightarrow> Inl SyntaxError
           | c # cs \<Rightarrow>
               if c = CHR '']'' then Inr ([x], cs)
               else if c = CHR '','' then
                 (case parse_elements n cs of
                    Inl e \<Rightarrow> Inl e
                  | Inr (xs, r') \<Rightarrow> Inr (x # xs, r'))
               else Inl SyntaxError))"
| "parse_members 0 s = Inl OutOfFuel"
| "parse_members (Suc n) s =
     (case skip_ws s of
        [] \<Rightarrow> Inl SyntaxError
      | c # cs \<Rightarrow>
          if c = dquote then
            (case parse_chars cs of
               Inl e \<Rightarrow> Inl e
             | Inr (k, r) \<Rightarrow>
                 (case skip_ws r of
                    [] \<Rightarrow> Inl SyntaxError
                  | c2 # cs2 \<Rightarrow>
                      if c2 = CHR '':'' then
                        (case parse_value n cs2 of
                           Inl e \<Rightarrow> Inl e
                         | Inr (v, r2) \<Rightarrow>
                             (case skip_ws r2 of
                                [] \<Rightarrow> Inl SyntaxError
                              | c3 # cs3 \<Rightarrow>
                                  if c3 = CHR ''}'' then Inr ([(k, v)], cs3)
                                  else if c3 = CHR '','' then
                                    (case parse_members n cs3 of
                                       Inl e \<Rightarrow> Inl e
                                     | Inr (ps, r3) \<Rightarrow> Inr ((k, v) # ps, r3))
                                  else Inl SyntaxError))
                      else Inl SyntaxError))
          else Inl SyntaxError)"

text \<open>
  \<^verbatim>\<open>JSON.parse\<close> takes the string of its argument: of null (\<open>None\<close>), the text
  \<^verbatim>\<open>null\<close>.
\<close>

definition JSON_parse :: "string option \<Rightarrow> exn + json" where
  "JSON_parse text =
     (let s = (case text of None \<Rightarrow> ''null'' | Some t \<Rightarrow> t)
      in case parse_value (2 * length s + 1) s of
           Inl e \<Rightarrow> Inl e
         | Inr (v, r) \<Rightarrow> if skip_ws r = [] then Inr v else Inl SyntaxError)"

subsection \<open>Objects as enumerations\<close>




text \<open>What follows a value in a JSON text: the end, a comma or a closing bracket.\<close>

definition terminated :: "string \<Rightarrow> bool" where
  "terminated r =
     (case r of [] \<Rightarrow> True | c # cs \<Rightarrow> c = CHR '','' \<or> c = CHR '']'' \<or> c = CHR ''}'')"

section \<open>The DOM elements\<close>

text \<open>
  An element has a tag, attributes in the order they were set, each name once (a
  missing attribute reads as null, \<open>None\<close>), a
  class list (a DOMTokenList: an ordered set of tokens) and child nodes, of which the
  tags are kept.
\<close>

record element =
  tagName :: string
  attributes :: "(string \<times> string) list"
  classList :: "string list"
  children :: "string list"

definition createElement :: "string \<Rightarrow> element" where
  "createElement tag = \<lparr>tagName = tag, attributes = [], classList = [], children = []\<rparr>"

definition setAttribute :: "string \<Rightarrow> string \<Rightarrow> 'a element_scheme \<Rightarrow> 'a element_scheme" where
  "setAttribute name v e = e\<lparr>attributes := AList.update name v (attributes e)\<rparr>"

definition removeAttribute :: "string \<Rightarrow> 'a element_scheme \<Rightarrow> 'a element_scheme" where
  "removeAttribute name e = e\<lparr>attributes := AList.delete name (attributes e)\<rparr>"

definition getAttribute :: "string \<Rightarrow> 'a element_scheme \<Rightarrow> string option" where
  "getAttribute name e = map_of (attributes e) name"

definition hasAttribute :: "string \<Rightarrow> 'a element_scheme \<Rightarrow> bool" where
  "hasAttribute name e = (map_of (attributes e) name \<noteq> None)"

definition classList_add :: "string \<Rightarrow> 'a element_scheme \<Rightarrow> 'a element_scheme" where
  "classList_add tok e =
     e\<lparr>classList := (if tok \<in> set (classList e) then classList e else classList e @ [tok])\<rparr>"

definition classList_remove :: "string \<Rightarrow> 'a element_scheme \<Rightarrow> 'a element_scheme" where
  "classList_remove tok e = e\<lparr>classList := removeAll tok (classList e)\<rparr>"

definition appendChild :: "string \<Rightarrow> 'a element_scheme \<Rightarrow> 'a element_scheme" where
  "appendChild tag e = e\<lparr>children := children e @ [tag]\<rparr>"

text \<open>\<^verbatim>\<open>while (node.lastChild) { node.removeChild(node.lastChild); }\<close>\<close>

function remove_children :: "'a element_scheme \<Rightarrow> 'a element_scheme" where
  "remove_children e =
     (if children e \<noteq> [] then remove_children (e\<lparr>children := butlast (children e)\<rparr>) else e)"
  by pat_completeness auto
termination
  by (relation "measure (\<lambda>e. length (children e))") auto

declare remove_children.simps [simp del]

section \<open>The viewer element\<close>

text \<open>
  The viewer (\<^verbatim>\<open>HTMLPerspectiveViewerElement\<close>) is a component outside the widget. Of
  it the widget uses the attributes and the class list of an element, and methods, its
  own and those of its table. What the methods do is the viewer's business: the model
  records each invocation, with its argument, in the order the widget makes them. The
  property \<^verbatim>\<open>table\<close> of the viewer is a table, as its type says, so a method of the
  table can be invoked. \<open>'t\<close> is the type of a table, \<open>'d\<close> that of table data.
\<close>

datatype ('t, 'd) viewer_call =
    V_notifyResize
  | V_toggleConfig
  | V_focus
  | V_restore json
  | V_load 't
  | V_table_update 'd
  | V_table_clear
  | V_table_replace 'd
  | V_delete
  | V_restyleElement
  | V_addEventListener string

record ('t, 'd) viewer = element +
  calls :: "('t, 'd) viewer_call list"

definition invoke :: "('t, 'd) viewer_call \<Rightarrow> ('t, 'd) viewer \<Rightarrow> ('t, 'd) viewer" where
  "invoke c v = v\<lparr>calls := calls v @ [c]\<rparr>"

section \<open>The widget\<close>

text \<open>
  The constants of \<^verbatim>\<open>./utils\<close> are not part of the sources at hand and are
  parameters, as is whether \<^verbatim>\<open>perspective-viewer\<close> is a defined custom element
  (whether the created element has \<^verbatim>\<open>notifyResize\<close>). The class names among them are
  tokens that a class list accepts: not empty and without white space.
\<close>

record utils =
  MIME_TYPE :: string
  PSP_CLASS :: string
  PSP_CONTAINER_CLASS :: string
  PSP_CONTAINER_CLASS_DARK :: string
  viewer_defined :: bool

text \<open>
  \<^verbatim>\<open>PerspectiveWidgetOptions\<close>: every field is optional, \<open>None\<close> is an omitted
  (undefined) field. The fields follow their TypeScript types: arrays for the
  collections, an object for the aggregates, any value for the plugin configuration.
  \<open>o_row_dash_pivots\<close> and \<open>o_column_dash_pivots\<close> are the fields
  \<^verbatim>\<open>options["row-pivots"]\<close> and \<^verbatim>\<open>options["column-pivots"]\<close>.
\<close>

record PerspectiveWidgetOptions =
  o_plugin :: "string option"
  o_columns :: "json list option"
  o_row_pivots :: "json list option"
  o_row_dash_pivots :: "json list option"
  o_column_pivots :: "json list option"
  o_column_dash_pivots :: "json list option"
  o_aggregates :: "(string \<times> json) list option"
  o_sort :: "json list option"
  o_filters :: "json list option"
  o_expressions :: "json list option"
  o_plugin_config :: "json option"
  o_dark :: "bool option"
  o_editable :: "bool option"
  o_server :: "bool option"
  o_client :: "bool option"
  o_selectable :: "bool option"
  o_title :: "string option"
  o_bindto :: "element option"

definition empty_options :: PerspectiveWidgetOptions where
  "empty_options =
    \<lparr>o_plugin = None, o_columns = None, o_row_pivots = None, o_row_dash_pivots = None,
     o_column_pivots = None, o_column_dash_pivots = None, o_aggregates = None,
     o_sort = None, o_filters = None, o_expressions = None, o_plugin_config = None,
     o_dark = None, o_editable = None, o_server = None, o_client = None,
     o_selectable = None, o_title = None, o_bindto = None\<rparr>"

text \<open>
  The state of a widget: the node and the title, id and flags that the Lumino base class
  keeps, and the fields of \<^verbatim>\<open>PerspectiveWidget\<close>. A leading underscore of the source is
  written \<open>u_\<close>; a private field is undefined (\<open>None\<close>) until it is assigned.
\<close>

record ('t, 'd) widget =
  node :: element
  title_label :: string
  title_caption :: string
  widget_id :: string
  isAttached :: bool
  isVisible :: bool
  u_viewer :: "('t, 'd) viewer"
  u_plugin_config :: "json option"
  u_client :: "bool option"
  u_server :: "bool option"
  u_dark :: "bool option"
  u_editable :: "bool option"

definition on_viewer ::
  "(('t, 'd) viewer \<Rightarrow> ('t, 'd) viewer) \<Rightarrow> ('t, 'd) widget \<Rightarrow> ('t, 'd) widget" where
  "on_viewer f w = w\<lparr>u_viewer := f (u_viewer w)\<rparr>"

definition on_node :: "(element \<Rightarrow> element) \<Rightarrow> ('t, 'd) widget \<Rightarrow> ('t, 'd) widget" where
  "on_node f w = w\<lparr>node := f (node w)\<rparr>"

subsection \<open>Lumino overrides\<close>

text \<open>
  An async method runs up to its first \<^verbatim>\<open>await\<close> when it is called, so the call of the
  viewer's method is made within the call of the widget's. The handlers of the base class
  (\<^verbatim>\<open>super.onResize\<close> and the like) are empty in Lumino.
\<close>

definition notifyResize :: "('t, 'd) widget \<Rightarrow> ('t, 'd) widget" where
  "notifyResize w = (if isVisible w then on_viewer (invoke V_notifyResize) w else w)"

definition toggleConfig :: "('t, 'd) widget \<Rightarrow> ('t, 'd) widget" where
  "toggleConfig w = (if isVisible w then on_viewer (invoke V_toggleConfig) w else w)"

definition onAfterShow :: "'m \<Rightarrow> ('t, 'd) widget \<Rightarrow> ('t, 'd) widget" where
  "onAfterShow msg w = notifyResize w"

definition onResize :: "'m \<Rightarrow> ('t, 'd) widget \<Rightarrow> ('t, 'd) widget" where
  "onResize msg w = notifyResize w"

definition onActivateRequest :: "'m \<Rightarrow> ('t, 'd) widget \<Rightarrow> ('t, 'd) widget" where
  "onActivateRequest msg w = (if isAttached w then on_viewer (invoke V_focus) w else w)"

subsection \<open>Data operations\<close>

definition load :: "'t \<Rightarrow> ('t, 'd) widget \<Rightarrow> ('t, 'd) widget" where
  "load table w = on_viewer (invoke (V_load table)) w"

definition u_update :: "'d \<Rightarrow> ('t, 'd) widget \<Rightarrow> ('t, 'd) widget" where
  "u_update data w = on_viewer (invoke (V_table_update data)) w"

definition clear :: "('t, 'd) widget \<Rightarrow> ('t, 'd) widget" where
  "clear w = on_viewer (invoke V_table_clear) w"

definition replace :: "'d \<Rightarrow> ('t, 'd) widget \<Rightarrow> ('t, 'd) widget" where
  "replace data w = on_viewer (invoke (V_table_replace data)) w"

definition delete :: "('t, 'd) widget \<Rightarrow> ('t, 'd) widget" where
  "delete w = on_viewer (invoke V_delete) w"

subsection \<open>Getters and setters\<close>

definition set_plugin :: "string \<Rightarrow> ('t, 'd) widget \<Rightarrow> ('t, 'd) widget" where
  "set_plugin plugin w = on_viewer (setAttribute ''plugin'' plugin) w"

definition set_columns :: "json list \<Rightarrow> ('t, 'd) widget \<Rightarrow> ('t, 'd) widget" where
  "set_columns columns w =
     (if length columns > 0
      then on_viewer (setAttribute ''columns'' (JSON_stringify (JArr columns))) w
      else on_viewer (removeAttribute ''columns'') w)"

definition set_row_pivots :: "json list \<Rightarrow> ('t, 'd) widget \<Rightarrow> ('t, 'd) widget" where
  "set_row_pivots row_pivots w =
     on_viewer (setAttribute ''row-pivots'' (JSON_stringify (JArr row_pivots))) w"

definition set_column_pivots :: "json list \<Rightarrow> ('t, 'd) widget \<Rightarrow> ('t, 'd) widget" where
  "set_column_pivots column_pivots w =
     on_viewer (setAttribute ''column-pivots'' (JSON_stringify (JArr column_pivots))) w"

definition set_aggregates :: "(string \<times> json) list \<Rightarrow> ('t, 'd) widget \<Rightarrow> ('t, 'd) widget" where
  "set_aggregates aggregates w =
     on_viewer (setAttribute ''aggregates'' (JSON_stringify (JObj aggregates))) w"

definition set_sort :: "json list \<Rightarrow> ('t, 'd) widget \<Rightarrow> ('t, 'd) widget" where
  "set_sort sort_arg w = on_viewer (setAttribute ''sort'' (JSON_stringify (JArr sort_arg))) w"

definition set_expressions :: "json list \<Rightarrow> ('t, 'd) widget \<Rightarrow> ('t, 'd) widget" where
  "set_expressions expressions w =
     (if length expressions > 0
      then on_viewer (setAttribute ''expressions'' (JSON_stringify (JArr expressions))) w
      else on_viewer (removeAttribute ''expressions'') w)"

definition set_filters :: "json list \<Rightarrow> ('t, 'd) widget \<Rightarrow> ('t, 'd) widget" where
  "set_filters filters w =
     (if length filters > 0
      then on_viewer (setAttribute ''filters'' (JSON_stringify (JArr filters))) w
      else on_viewer (removeAttribute ''filters'') w)"

definition get_plugin_config :: "('t, 'd) widget \<Rightarrow> json option" where
  "get_plugin_config w = u_plugin_config w"

definition set_plugin_config :: "json \<Rightarrow> ('t, 'd) widget \<Rightarrow> ('t, 'd) widget" where
  "set_plugin_config plugin_config w =
     (let w1 = w\<lparr>u_plugin_config := Some plugin_config\<rparr>
      in case u_plugin_config w1 of
           None \<Rightarrow> w1
         | Some c \<Rightarrow>
             if truthy c then on_viewer (invoke (V_restore (JObj [(''plugin_config'', c)]))) w1
             else w1)"

definition get_client :: "('t, 'd) widget \<Rightarrow> bool option" where
  "get_client w = u_client w"

definition set_client :: "bool \<Rightarrow> ('t, 'd) widget \<Rightarrow> ('t, 'd) widget" where
  "set_client client w = w\<lparr>u_client := Some client\<rparr>"

definition get_server :: "('t, 'd) widget \<Rightarrow> bool option" where
  "get_server w = u_server w"

definition set_server :: "bool \<Rightarrow> ('t, 'd) widget \<Rightarrow> ('t, 'd) widget" where
  "set_server server w = w\<lparr>u_server := Some server\<rparr>"


definition set_dark :: "utils \<Rightarrow> bool \<Rightarrow> ('t, 'd) widget \<Rightarrow> ('t, 'd) widget" where
  "set_dark U dark w =
     (let w1 = w\<lparr>u_dark := Some dark\<rparr>;
          w2 = (if u_dark w1 = Some True
                then on_node (classList_remove (PSP_CONTAINER_CLASS U))
                       (on_node (classList_add (PSP_CONTAINER_CLASS_DARK U)) w1)
                else on_node (classList_remove (PSP_CONTAINER_CLASS_DARK U))
                       (on_node (classList_add (PSP_CONTAINER_CLASS U)) w1))
      in if isAttached w2 then on_viewer (invoke V_restyleElement) w2 else w2)"


definition set_editable :: "bool \<Rightarrow> ('t, 'd) widget \<Rightarrow> ('t, 'd) widget" where
  "set_editable editable w =
     (let w1 = w\<lparr>u_editable := Some editable\<rparr>
      in if u_editable w1 = Some True then on_viewer (setAttribute ''editable'' []) w1
         else on_viewer (removeAttribute ''editable'') w1)"


definition set_selectable :: "bool \<Rightarrow> ('t, 'd) widget \<Rightarrow> ('t, 'd) widget" where
  "set_selectable row_selection w =
     (if row_selection then on_viewer (setAttribute ''selectable'' []) w
      else on_viewer (removeAttribute ''selectable'') w)"


definition get_columns :: "('t, 'd) widget \<Rightarrow> exn + json" where
  "get_columns w = JSON_parse (getAttribute ''columns'' (u_viewer w))"





definition get_expressions :: "('t, 'd) widget \<Rightarrow> exn + json" where
  "get_expressions w = JSON_parse (getAttribute ''expressions'' (u_viewer w))"

definition get_filters :: "('t, 'd) widget \<Rightarrow> exn + json" where
  "get_filters w = JSON_parse (getAttribute ''filters'' (u_viewer w))"

subsection \<open>Applying the options\<close>

definition u_set_attributes ::
  "utils \<Rightarrow> PerspectiveWidgetOptions \<Rightarrow> ('t, 'd) widget \<Rightarrow> ('t, 'd) widget" where
  "u_set_attributes U options w =
     (let plugin = js_or_default truthy_string (o_plugin options) ''datagrid'';
          columns = js_or_default truthy_object (o_columns options) [];
          row_pivots = js_or_default truthy_object
            (js_or truthy_object (o_row_pivots options) (o_row_dash_pivots options)) [];
          column_pivots = js_or_default truthy_object
            (js_or truthy_object (o_column_pivots options) (o_column_dash_pivots options)) [];
          aggregates = js_or_default truthy_object (o_aggregates options) [];
          sort_arg = js_or_default truthy_object (o_sort options) [];
          filters = js_or_default truthy_object (o_filters options) [];
          expressions = js_or_default truthy_object
            (js_or truthy_object (o_expressions options) (o_expressions options)) [];
          plugin_config = js_or_default truthy (o_plugin_config options) (JObj []);
          dark = js_or_default truthy_bool (o_dark options) False;
          editable = js_or_default truthy_bool (o_editable options) False;
          server = js_or_default truthy_bool (o_server options) False;
          client = js_or_default truthy_bool (o_client options) False;
          selectable = js_or_default truthy_bool (o_selectable options) False;
          w = set_server server w;
          w = set_client client w;
          w = set_dark U dark w;
          w = set_editable editable w;
          w = set_plugin plugin w;
          w = set_plugin_config plugin_config w;
          w = set_row_pivots row_pivots w;
          w = set_column_pivots column_pivots w;
          w = set_sort sort_arg w;
          w = set_columns columns w;
          w = set_selectable selectable w;
          w = set_aggregates aggregates w;
          w = set_expressions expressions w;
          w = set_filters filters w
      in w)"

subsection \<open>Construction\<close>

definition createViewer :: "('t, 'd) viewer" where
  "createViewer =
     \<lparr>tagName = ''perspective-viewer'', attributes = [], classList = [],
      children = [], calls = []\<rparr>"

text \<open>
  \<^verbatim>\<open>createNode\<close> returns the viewer and changes the node it is given; the model returns
  both. The mutation observer it installs acts on later changes of the node's style and
  is no part of the state.
\<close>

definition createNode :: "utils \<Rightarrow> element \<Rightarrow> element \<times> ('t, 'd) viewer" where
  "createNode U node0 =
     (let n = classList_add ''p-Widget'' node0;
          n = classList_add (PSP_CONTAINER_CLASS U) n;
          v = createViewer;
          v = classList_add (PSP_CLASS U) v;
          v = setAttribute ''type'' (MIME_TYPE U) v;
          n = remove_children n;
          n = appendChild ''perspective-viewer'' n;
          v = invoke (V_addEventListener ''contextmenu'') v;
          n = appendChild ''div'' n;
          v = (if \<not> viewer_defined U then v else invoke V_toggleConfig v)
      in (n, v))"

text \<open>
  The counter \<^verbatim>\<open>_increment\<close> of the module is a double. It starts at 0, and adding 1
  to it is exact below \<open>2\<^sup>5\<^sup>3\<close>; the sum of \<open>2\<^sup>5\<^sup>3\<close> and 1 is no double and is rounded to
  \<open>2\<^sup>5\<^sup>3\<close>, so there the counter stays. The counter is a natural number here, which is
  at most \<open>2\<^sup>5\<^sup>3\<close> in every session, and it is written in decimal, as JavaScript writes
  an integer of that size.
\<close>

definition plus_one :: "nat \<Rightarrow> nat" where
  "plus_one c = (if c < 2 ^ 53 then c + 1 else c)"

lemma plus_one_code [code]:
  "plus_one c = (if int c < 9007199254740992 then c + 1 else c)"
  by (simp add: plus_one_def)

text \<open>
  The constructor reads and increments the counter: the model takes the counter and
  returns the new one with the widget. An argument left out is \<open>None\<close>. A widget of
  Lumino is neither attached nor visible when it is made.

  When \<^verbatim>\<open>perspective-viewer\<close> is no defined element, the viewer is a plain element
  without the method \<^verbatim>\<open>restore\<close>. \<^verbatim>\<open>_set_attributes\<close> assigns \<^verbatim>\<open>plugin_config\<close> a
  truthy value always, and the setter calls \<^verbatim>\<open>restore\<close>: the constructor throws
  TypeError then, after the counter was incremented. So the viewer of a widget that was
  made has its methods.
\<close>

definition PerspectiveWidget ::
  "utils \<Rightarrow> string option \<Rightarrow> PerspectiveWidgetOptions option \<Rightarrow> nat \<Rightarrow>
   (exn + ('t, 'd) widget) \<times> nat" where
  "PerspectiveWidget U name_arg options_arg u_increment =
     (let name = (case name_arg of None \<Rightarrow> ''Perspective'' | Some n \<Rightarrow> n);
          options = (case options_arg of None \<Rightarrow> empty_options | Some os \<Rightarrow> os);
          (n, v) = createNode U
            (case o_bindto options of Some e \<Rightarrow> e | None \<Rightarrow> createElement ''div'');
          w = \<lparr>node = n, title_label = name, title_caption = name,
               widget_id = (name @ ''-'') @ show_nat u_increment,
               isAttached = False, isVisible = False, u_viewer = v,
               u_plugin_config = None, u_client = None, u_server = None,
               u_dark = None, u_editable = None\<rparr>
      in (if viewer_defined U then Inr (u_set_attributes U options w) else Inl TypeError,
          plus_one u_increment))"

text \<open>
  A session: constructions one after the other, each with the counter the last left. A
  construction that throws leaves no widget.
\<close>

fun construct_all ::
  "utils \<Rightarrow> (string option \<times> PerspectiveWidgetOptions option) list \<Rightarrow> nat \<Rightarrow>
   ('t, 'd) widget list \<times> nat" where
  "construct_all U [] c = ([], c)"
| "construct_all U ((name_arg, options_arg) # rest) c =
     (let (res, c1) = PerspectiveWidget U name_arg options_arg c;
          (ws, c2) = construct_all U rest c1
      in (case res of Inl e \<Rightarrow> ws | Inr w \<Rightarrow> w # ws, c2))"

subsection \<open>Sample values\<close>

definition sample_utils :: utils where
  "sample_utils =
     \<lparr>MIME_TYPE = ''application/psp+json'', PSP_CLASS = ''PSPViewer'',
      PSP_CONTAINER_CLASS = ''PSPContainer'', PSP_CONTAINER_CLASS_DARK = ''PSPContainer-dark'',
      viewer_defined = True\<rparr>"

text \<open>The widget that the constructor makes from no arguments, the counter being 0.\<close>

definition sample_widget :: "(nat, nat) widget" where
  "sample_widget =
     \<lparr>node = \<lparr>tagName = ''div'', attributes = [],
              classList = [''p-Widget'', ''PSPContainer''],
              children = [''perspective-viewer'', ''div'']\<rparr>,
      title_label = ''Perspective'', title_caption = ''Perspective'',
      widget_id = ''Perspective-0'', isAttached = False, isVisible = False,
      u_viewer = \<lparr>tagName = ''perspective-viewer'',
                  attributes = [(''type'', ''application/psp+json''), (''plugin'', ''datagrid''),
                                (''row-pivots'', ''[]''), (''column-pivots'', ''[]''),
                                (''sort'', ''[]''), (''aggregates'', ''{}'')],
                  classList = [''PSPViewer''], children = [],
                  calls = [V_addEventListener ''contextmenu'', V_toggleConfig,
                           V_restore (JObj [(''plugin_config'', JObj [])])]\<rparr>,
      u_plugin_config = Some (JObj []), u_client = Some False, u_server = Some False,
      u_dark = Some False, u_editable = Some False\<rparr>"

text \<open>Options with an empty plugin name, and row pivots under the hyphenated key only.\<close>

definition sample_options :: PerspectiveWidgetOptions where
  "sample_options = empty_options\<lparr>o_plugin := Some [], o_row_dash_pivots := Some [JStr ''a'']\<rparr>"





definition cached_fields ::
  "('t, 'd) widget \<Rightarrow> json option \<times> bool option \<times> bool option \<times> bool option \<times> bool option" where
  "cached_fields w = (u_plugin_config w, u_client w, u_server w, u_dark w, u_editable w)"

section \<open>The sample widget\<close>

lemma constructed_sample_widget:
  "PerspectiveWidget sample_utils None None 0 = (Inr sample_widget, 1)"
  by code_simp

section \<open>Lifecycle forwarding\<close>

text \<open>
  Claim C4. A resize message and an after-show message delivered while the widget is
  visible invoke \<^verbatim>\<open>notifyResize\<close> of the viewer, once; delivered while the widget is
  not visible they invoke nothing on the viewer and leave the widget as it is.
\<close>

theorem resize_forwarded_when_visible:
  fixes w :: "('t, 'd) widget" and rmsg :: 'r and smsg :: 's
  shows "(isVisible w \<longrightarrow>
            calls (u_viewer (onResize rmsg w)) = calls (u_viewer w) @ [V_notifyResize] \<and>
            calls (u_viewer (onAfterShow smsg w)) = calls (u_viewer w) @ [V_notifyResize]) \<and>
         (\<not> isVisible w \<longrightarrow> onResize rmsg w = w \<and> onAfterShow smsg w = w)"
  by (simp add: onResize_def onAfterShow_def notifyResize_def on_viewer_def invoke_def)

theorem resize_forwarded_when_visible_witness:
  "isVisible (sample_widget\<lparr>isVisible := True\<rparr>) \<and>
   calls (u_viewer (onResize () (sample_widget\<lparr>isVisible := True\<rparr>)))
     = calls (u_viewer sample_widget) @ [V_notifyResize] \<and>
   calls (u_viewer (onAfterShow () (sample_widget\<lparr>isVisible := True\<rparr>)))
     = calls (u_viewer sample_widget) @ [V_notifyResize] \<and>
   \<not> isVisible sample_widget \<and>
   onResize () sample_widget = sample_widget \<and>
   onAfterShow () sample_widget = sample_widget"
  using resize_forwarded_when_visible [of "sample_widget\<lparr>isVisible := True\<rparr>" "()" "()"]
    resize_forwarded_when_visible [of sample_widget "()" "()"]
  by (simp add: sample_widget_def)

text \<open>
  Claim C5. An activation request calls \<^verbatim>\<open>focus\<close> of the viewer if and only if the
  widget is attached; on a detached widget it calls nothing and changes nothing.
\<close>

theorem focus_iff_attached:
  fixes w :: "('t, 'd) widget" and msg :: 'm
  shows "(calls (u_viewer (onActivateRequest msg w)) = calls (u_viewer w) @ [V_focus])
           = isAttached w \<and>
         (\<not> isAttached w \<longrightarrow> onActivateRequest msg w = w)"
  by (simp add: onActivateRequest_def on_viewer_def invoke_def)

theorem focus_iff_attached_witness:
  "\<not> isAttached sample_widget \<and> onActivateRequest () sample_widget = sample_widget \<and>
   calls (u_viewer (onActivateRequest () (sample_widget\<lparr>isAttached := True\<rparr>)))
     = calls (u_viewer sample_widget) @ [V_focus]"
  using focus_iff_attached [of "()" sample_widget]
    focus_iff_attached [of "()" "sample_widget\<lparr>isAttached := True\<rparr>"]
  by (simp add: sample_widget_def)

section \<open>Data operations\<close>

text \<open>
  Claim C6. \<^verbatim>\<open>load\<close>, \<^verbatim>\<open>_update\<close>, \<^verbatim>\<open>clear\<close>, \<^verbatim>\<open>replace\<close> and \<^verbatim>\<open>delete\<close> each make
  one call, of the corresponding method of the viewer or of its table, with the argument
  they were given, and leave the cached fields of the widget and the attributes of the
  element as they were.
\<close>

theorem data_operations_forward:
  fixes w :: "('t, 'd) widget"
  shows "calls (u_viewer (load table w)) = calls (u_viewer w) @ [V_load table] \<and>
         calls (u_viewer (u_update data w)) = calls (u_viewer w) @ [V_table_update data] \<and>
         calls (u_viewer (clear w)) = calls (u_viewer w) @ [V_table_clear] \<and>
         calls (u_viewer (replace data w)) = calls (u_viewer w) @ [V_table_replace data] \<and>
         calls (u_viewer (delete w)) = calls (u_viewer w) @ [V_delete] \<and>
         (\<forall>w' \<in> {load table w, u_update data w, clear w, replace data w, delete w}.
            cached_fields w' = cached_fields w \<and>
            attributes (u_viewer w') = attributes (u_viewer w) \<and>
            on_viewer (\<lambda>v. v\<lparr>calls := calls (u_viewer w)\<rparr>) w' = w)"
  by (simp add: load_def u_update_def clear_def replace_def delete_def on_viewer_def
      invoke_def cached_fields_def)

theorem data_operations_forward_witness:
  "calls (u_viewer (load 7 sample_widget)) = calls (u_viewer sample_widget) @ [V_load 7] \<and>
   calls (u_viewer (u_update 3 sample_widget)) = calls (u_viewer sample_widget) @ [V_table_update 3] \<and>
   cached_fields (replace 3 sample_widget) = (Some (JObj []), Some False, Some False, Some False, Some False) \<and>
   getAttribute ''plugin'' (u_viewer (delete sample_widget)) = Some ''datagrid''"
  using data_operations_forward [of 7 sample_widget 3]
  by (simp add: sample_widget_def cached_fields_def getAttribute_def)

section \<open>Cached fields\<close>

text \<open>
  Claim C7. After \<^verbatim>\<open>client\<close>, \<^verbatim>\<open>server\<close> or \<^verbatim>\<open>plugin_config\<close> is assigned a value, its
  getter returns that value. The setters of \<^verbatim>\<open>client\<close> and \<^verbatim>\<open>server\<close> change the
  cached field and nothing else: the viewer, with its attributes and the calls made on
  it, is the same, and putting the old value of the field back gives the old widget.
\<close>

theorem field_caches:
  fixes w :: "('t, 'd) widget"
  shows "get_client (set_client b w) = Some b \<and>
         get_server (set_server b w) = Some b \<and>
         get_plugin_config (set_plugin_config c w) = Some c \<and>
         u_viewer (set_client b w) = u_viewer w \<and>
         u_viewer (set_server b w) = u_viewer w \<and>
         (set_client b w)\<lparr>u_client := u_client w\<rparr> = w \<and>
         (set_server b w)\<lparr>u_server := u_server w\<rparr> = w"
  by (simp add: get_client_def set_client_def get_server_def set_server_def
      get_plugin_config_def set_plugin_config_def on_viewer_def Let_def)

section \<open>Dark mode\<close>

text \<open>
  Claim C9. After \<^verbatim>\<open>dark\<close> is assigned, the node of the widget carries exactly one of
  the two container classes: the dark one and not the light one when the value is true,
  the light one and not the dark one when it is false. The two class names are
  constants of \<^verbatim>\<open>./utils\<close>, taken to be different names.
\<close>

theorem dark_classes_exclusive:
  fixes w :: "('t, 'd) widget"
  assumes "PSP_CONTAINER_CLASS U \<noteq> PSP_CONTAINER_CLASS_DARK U"
  shows "(dark \<longrightarrow>
            PSP_CONTAINER_CLASS_DARK U \<in> set (classList (node (set_dark U dark w))) \<and>
            PSP_CONTAINER_CLASS U \<notin> set (classList (node (set_dark U dark w)))) \<and>
         (\<not> dark \<longrightarrow>
            PSP_CONTAINER_CLASS U \<in> set (classList (node (set_dark U dark w))) \<and>
            PSP_CONTAINER_CLASS_DARK U \<notin> set (classList (node (set_dark U dark w))))"
  using assms
  by (auto simp add: set_dark_def on_node_def on_viewer_def classList_add_def
      classList_remove_def Let_def)

theorem dark_classes_exclusive_witness:
  "PSP_CONTAINER_CLASS sample_utils \<noteq> PSP_CONTAINER_CLASS_DARK sample_utils \<and>
   classList (node (set_dark sample_utils True sample_widget)) = [''p-Widget'', ''PSPContainer-dark''] \<and>
   classList (node (set_dark sample_utils False (set_dark sample_utils True sample_widget)))
     = [''p-Widget'', ''PSPContainer'']"
  using dark_classes_exclusive [of sample_utils True sample_widget]
    dark_classes_exclusive [of sample_utils False "set_dark sample_utils True sample_widget"]
  by (simp add: sample_utils_def sample_widget_def set_dark_def on_node_def on_viewer_def
      classList_add_def classList_remove_def Let_def)

section \<open>Decimal numerals\<close>

lemma lt10_cases:
  "(d::nat) < 10 \<Longrightarrow> d = 0 \<or> d = 1 \<or> d = 2 \<or> d = 3 \<or> d = 4 \<or> d = 5 \<or> d = 6 \<or> d = 7 \<or> d = 8 \<or> d = 9"
  by arith

lemma digit_char_digit:
  assumes "d < 10"
  shows "is_digit (digit_char d)" and "digit_val (digit_char d) = d"
  using lt10_cases [OF assms] by (auto simp add: digit_char_def is_digit_def digit_val_def)


lemma show_nat_digits: "c \<in> set (show_nat n) \<Longrightarrow> is_digit c"
proof (induction n rule: show_nat.induct)
  case (1 n)
  show ?case
  proof (cases "n < 10")
    case True
    with "1.prems" show ?thesis
      by (subst (asm) show_nat.simps) (simp add: digit_char_digit)
  next
    case False
    with "1.prems" "1.IH" show ?thesis
      by (subst (asm) show_nat.simps) (auto simp add: digit_char_digit)
  qed
qed

lemma digits_val_snoc: "digits_val (ds @ [c]) = 10 * digits_val ds + digit_val c"
  by (simp add: digits_val_def)

lemma digits_val_show_nat: "digits_val (show_nat n) = n"
proof (induction n rule: show_nat.induct)
  case (1 n)
  show ?case
  proof (cases "n < 10")
    case True
    then show ?thesis
      by (subst show_nat.simps) (simp add: digits_val_def digit_char_digit)
  next
    case False
    with "1.IH" show ?thesis
      by (subst show_nat.simps) (simp add: digits_val_snoc digit_char_digit)
  qed
qed

lemma show_nat_inj: "show_nat a = show_nat b \<Longrightarrow> a = b"
  by (metis digits_val_show_nat)



section \<open>Widget ids\<close>

lemma widget_id_setters [simp]:
  "widget_id (set_server b w) = widget_id w"
  "widget_id (set_client b w) = widget_id w"
  "widget_id (set_dark U b w) = widget_id w"
  "widget_id (set_editable b w) = widget_id w"
  "widget_id (set_plugin p w) = widget_id w"
  "widget_id (set_plugin_config c w) = widget_id w"
  "widget_id (set_row_pivots xs w) = widget_id w"
  "widget_id (set_column_pivots xs w) = widget_id w"
  "widget_id (set_sort xs w) = widget_id w"
  "widget_id (set_columns xs w) = widget_id w"
  "widget_id (set_selectable b w) = widget_id w"
  "widget_id (set_aggregates ps w) = widget_id w"
  "widget_id (set_expressions xs w) = widget_id w"
  "widget_id (set_filters xs w) = widget_id w"
  by (simp_all add: set_server_def set_client_def set_dark_def set_editable_def set_plugin_def
      set_plugin_config_def set_row_pivots_def set_column_pivots_def set_sort_def
      set_columns_def set_selectable_def set_aggregates_def set_expressions_def
      set_filters_def on_viewer_def on_node_def Let_def)

lemma widget_id_set_attributes: "widget_id (u_set_attributes U opts w) = widget_id w"
  by (simp add: u_set_attributes_def Let_def)

lemma PerspectiveWidget_made:
  assumes "viewer_defined U"
  shows "\<exists>w. fst (PerspectiveWidget U name_arg options_arg c) = Inr w \<and>
     widget_id w = (case name_arg of None \<Rightarrow> ''Perspective'' | Some n \<Rightarrow> n) @ ''-'' @ show_nat c"
  using assms
  by (simp add: PerspectiveWidget_def Let_def widget_id_set_attributes split: prod.splits)

lemma PerspectiveWidget_thrown:
  "\<not> viewer_defined U \<Longrightarrow> fst (PerspectiveWidget U name_arg options_arg c) = Inl TypeError"
  by (simp add: PerspectiveWidget_def Let_def split: prod.splits)

lemma PerspectiveWidget_counter:
  "snd (PerspectiveWidget U name_arg options_arg c) = plus_one c"
  by (simp add: PerspectiveWidget_def Let_def split: prod.splits)

lemma id_digits_suffix:
  "takeWhile is_digit (rev (name @ ''-'' @ show_nat c)) = rev (show_nat c)"
proof -
  have "\<And>x. x \<in> set (rev (show_nat c)) \<Longrightarrow> is_digit x"
    by (simp add: show_nat_digits)
  then have "takeWhile is_digit (rev (show_nat c) @ CHR ''-'' # rev name)
      = rev (show_nat c) @ takeWhile is_digit (CHR ''-'' # rev name)"
    by (rule takeWhile_append2)
  then show ?thesis by (simp add: is_digit_def)
qed

lemma id_counter_inj:
  assumes "name1 @ ''-'' @ show_nat c1 = name2 @ ''-'' @ show_nat c2"
  shows "c1 = c2"
proof -
  from assms have "takeWhile is_digit (rev (name1 @ ''-'' @ show_nat c1))
      = takeWhile is_digit (rev (name2 @ ''-'' @ show_nat c2))"
    by simp
  then have "show_nat c1 = show_nat c2"
    by (simp only: id_digits_suffix rev_is_rev_conv)
  then show ?thesis by (rule show_nat_inj)
qed

text \<open>The ids and the counter of a session, construction by construction.\<close>

lemma construct_all_Cons:
  "(construct_all U ((name_arg, options_arg) # rest) c :: ('t, 'd) widget list \<times> nat) =
     ((case fst (PerspectiveWidget U name_arg options_arg c :: (exn + ('t, 'd) widget) \<times> nat) of Inl e \<Rightarrow> [] | Inr w \<Rightarrow> [w]) @ fst (construct_all U rest (plus_one c) :: ('t, 'd) widget list \<times> nat), snd (construct_all U rest (plus_one c) :: ('t, 'd) widget list \<times> nat))"
proof -
  obtain res c1 where p: "(PerspectiveWidget U name_arg options_arg c :: (exn + ('t, 'd) widget) \<times> nat) = (res, c1)"
    by (cases "(PerspectiveWidget U name_arg options_arg c :: (exn + ('t, 'd) widget) \<times> nat)")
  then have "c1 = plus_one c"
    using PerspectiveWidget_counter [of U name_arg options_arg c, where ?'a = 't and ?'b = 'd]
    by simp
  with p show ?thesis
    by (simp split: prod.splits sum.splits)
qed

lemma ids_Cons:
  "map widget_id (fst (construct_all U ((name_arg, options_arg) # rest) c :: ('t, 'd) widget list \<times> nat)) =
     (if viewer_defined U
      then [(case name_arg of None \<Rightarrow> ''Perspective'' | Some n \<Rightarrow> n) @ ''-'' @ show_nat c]
      else [])
     @ map widget_id (fst (construct_all U rest (plus_one c) :: ('t, 'd) widget list \<times> nat))"
proof (cases "viewer_defined U")
  case True
  then obtain w where "fst (PerspectiveWidget U name_arg options_arg c :: (exn + ('t, 'd) widget) \<times> nat) = Inr w"
    "widget_id w = (case name_arg of None \<Rightarrow> ''Perspective'' | Some n \<Rightarrow> n) @ ''-'' @ show_nat c"
    using PerspectiveWidget_made by blast
  with True show ?thesis
    by (simp add: construct_all_Cons del: construct_all.simps)
next
  case False
  then have "fst (PerspectiveWidget U name_arg options_arg c :: (exn + ('t, 'd) widget) \<times> nat) = Inl TypeError"
    by (rule PerspectiveWidget_thrown)
  with False show ?thesis
    by (simp add: construct_all_Cons del: construct_all.simps)
qed

lemma counter_Cons:
  "snd (construct_all U ((name_arg, options_arg) # rest) c :: ('t, 'd) widget list \<times> nat) = snd (construct_all U rest (plus_one c) :: ('t, 'd) widget list \<times> nat)"
  by (simp add: construct_all_Cons del: construct_all.simps)

lemma plus_one_below: "c < 2 ^ 53 \<Longrightarrow> plus_one c = Suc c"
  by (simp add: plus_one_def)

lemma construct_all_counter:
  "c \<le> 2 ^ 53 \<Longrightarrow>
     snd (construct_all U args c :: ('t, 'd) widget list \<times> nat) = min (c + length args) (2 ^ 53)"
proof (induction args arbitrary: c)
  case Nil
  then show ?case by simp
next
  case (Cons a args)
  obtain name_arg options_arg where a: "a = (name_arg, options_arg)"
    by (cases a)
  have p: "plus_one c \<le> 2 ^ 53"
    using Cons.prems by (simp add: plus_one_def)
  have "min (plus_one c + length args) (2 ^ 53) = min (c + length (a # args)) (2 ^ 53)"
    using Cons.prems by (simp add: plus_one_def)
  with Cons.IH [OF p] show ?case
    by (simp only: a counter_Cons)
qed

lemma construct_all_ids:
  "c + length args \<le> 2 ^ 53 + 1 \<Longrightarrow>
     map widget_id (fst (construct_all U args c :: ('t, 'd) widget list \<times> nat)) =
       (if viewer_defined U
        then map (\<lambda>(k, name_arg, options_arg).
                    (case name_arg of None \<Rightarrow> ''Perspective'' | Some n \<Rightarrow> n) @ ''-'' @ show_nat k)
               (zip [c..<c + length args] args)
        else [])"
proof (induction args arbitrary: c)
  case Nil
  show ?case by simp
next
  case (Cons a args)
  obtain name_arg options_arg where a: "a = (name_arg, options_arg)"
    by (cases a)
  have z: "zip [c..<c + length (a # args)] (a # args) = (c, a) # zip [Suc c..<Suc c + length args] args"
    by (subst upt_rec) simp
  show ?case
  proof (cases args)
    case Nil
    then show ?thesis
      by (simp add: a ids_Cons del: construct_all.simps(2))
  next
    case Cons2: (Cons b bs)
    with Cons.prems have c: "c < 2 ^ 53"
      by simp
    then have p: "plus_one c = Suc c"
      by (rule plus_one_below)
    from Cons.prems have "Suc c + length args \<le> 2 ^ 53 + 1"
      by simp
    from Cons.IH [OF this] show ?thesis
      unfolding z by (simp add: a ids_Cons p del: construct_all.simps)
  qed
qed

lemma ids_distinct:
  "distinct ks \<Longrightarrow>
     distinct (map (\<lambda>(k, a). f a @ ''-'' @ show_nat k) (zip ks (as :: 'a list)))"
proof (induction ks arbitrary: as)
  case Nil
  show ?case by simp
next
  case (Cons k ks)
  show ?case
  proof (cases as)
    case Nil
    then show ?thesis by simp
  next
    case as: (Cons a as')
    have "f a @ ''-'' @ show_nat k \<noteq> f a' @ ''-'' @ show_nat k'"
      if "(k', a') \<in> set (zip ks as')" for k' a'
    proof
      assume "f a @ ''-'' @ show_nat k = f a' @ ''-'' @ show_nat k'"
      then have "k = k'"
        by (rule id_counter_inj)
      moreover from that have "k' \<in> set ks"
        by (rule set_zip_leftD)
      ultimately show False
        using Cons.prems by simp
    qed
    then have "f a @ ''-'' @ show_nat k
        \<notin> set (map (\<lambda>(k, a). f a @ ''-'' @ show_nat k) (zip ks as'))"
      by auto
    with Cons.IH [of as'] Cons.prems show ?thesis
      by (simp add: as)
  qed
qed

lemma construct_all_distinct:
  assumes "c + length args \<le> 2 ^ 53 + 1"
  shows "distinct (map widget_id (fst (construct_all U args c :: ('t, 'd) widget list \<times> nat)))"
proof -
  have "distinct (map (\<lambda>(k, a). (case fst a of None \<Rightarrow> ''Perspective'' | Some n \<Rightarrow> n)
      @ ''-'' @ show_nat k) (zip [c..<c + length args] args))"
    by (rule ids_distinct) simp
  moreover have "(\<lambda>(k, a). (case fst a of None \<Rightarrow> ''Perspective'' | Some n \<Rightarrow> n)
      @ ''-'' @ show_nat k)
    = (\<lambda>(k, name_arg, options_arg :: PerspectiveWidgetOptions option).
         (case name_arg of None \<Rightarrow> ''Perspective'' | Some n \<Rightarrow> n) @ ''-'' @ show_nat k)"
    by (simp add: fun_eq_iff)
  ultimately show ?thesis
    by (simp add: construct_all_ids [OF assms])
qed

text \<open>A session of \<open>2\<^sup>5\<^sup>3\<close> constructions leaves the counter at \<open>2\<^sup>5\<^sup>3\<close>.\<close>

lemma counter_reaches_bound:
  "snd (construct_all U (replicate (2 ^ 53) (None, None)) 0 :: ('t, 'd) widget list \<times> nat) = 2 ^ 53"
proof -
  have "(0::nat) \<le> 2 ^ 53"
    by simp
  then have "snd (construct_all U (replicate (2 ^ 53) (None, None)) 0 :: ('t, 'd) widget list \<times> nat)
      = min (0 + length (replicate (2 ^ 53)
          (None :: string option, None :: PerspectiveWidgetOptions option))) (2 ^ 53)"
    by (rule construct_all_counter)
  then show ?thesis
    by (simp only: length_replicate add_0 min.idem)
qed

text \<open>
  Claim C8, as the code has it. The id of a widget is its name, a hyphen and the
  counter of the module in decimal, and every construction leaves the counter one
  higher, as far as \<open>2\<^sup>5\<^sup>3\<close>, where the counter stays. So the widgets of a session have
  ids that differ from one another, whatever their names, equal names included, as long
  as the last of them is made with a counter of at most \<open>2\<^sup>5\<^sup>3\<close>: from the start of a
  session these are its first \<open>2\<^sup>5\<^sup>3 + 1\<close> constructions.
\<close>

theorem widget_ids_unique:
  assumes "c + length args \<le> 2 ^ 53 + 1"
  shows
  "(viewer_defined U \<longrightarrow>
      map widget_id (fst (construct_all U args c :: ('t, 'd) widget list \<times> nat)) =
        map (\<lambda>(k, name_arg, options_arg).
               (case name_arg of None \<Rightarrow> ''Perspective'' | Some n \<Rightarrow> n) @ ''-'' @ show_nat k)
          (zip [c..<c + length args] args)) \<and>
   (c \<le> 2 ^ 53 \<longrightarrow> snd (construct_all U args c :: ('t, 'd) widget list \<times> nat) = min (c + length args) (2 ^ 53)) \<and>
   distinct (map widget_id (fst (construct_all U args c :: ('t, 'd) widget list \<times> nat)))"
proof (intro conjI impI)
  assume "viewer_defined U"
  with construct_all_ids [OF assms, of U, where ?'t = 't and ?'d = 'd]
  show "map widget_id (fst (construct_all U args c :: ('t, 'd) widget list \<times> nat)) =
        map (\<lambda>(k, name_arg, options_arg).
               (case name_arg of None \<Rightarrow> ''Perspective'' | Some n \<Rightarrow> n) @ ''-'' @ show_nat k)
          (zip [c..<c + length args] args)"
    by simp
next
  assume "c \<le> 2 ^ 53"
  then show "snd (construct_all U args c :: ('t, 'd) widget list \<times> nat)
      = min (c + length args) (2 ^ 53)"
    by (rule construct_all_counter)
next
  from assms
  show "distinct (map widget_id (fst (construct_all U args c :: ('t, 'd) widget list \<times> nat)))"
    by (rule construct_all_distinct)
qed

theorem widget_ids_unique_witness:
  "(0::nat) + length [(None, None), (Some ''Perspective'', None), (Some ''a-1'', Some sample_options)]
     \<le> 2 ^ 53 + 1 \<and>
   viewer_defined sample_utils \<and> (0::nat) \<le> 2 ^ 53 \<and>
   map widget_id (fst (construct_all sample_utils
       [(None, None), (Some ''Perspective'', None), (Some ''a-1'', Some sample_options)] 0
       :: (nat, nat) widget list \<times> nat))
     = [''Perspective-0'', ''Perspective-1'', ''a-1-2''] \<and>
   snd (construct_all sample_utils
       [(None, None), (Some ''Perspective'', None), (Some ''a-1'', Some sample_options)] 0
       :: (nat, nat) widget list \<times> nat) = 3 \<and>
   distinct (map widget_id (fst (construct_all sample_utils
       [(None, None), (Some ''Perspective'', None), (Some ''a-1'', Some sample_options)] 0
       :: (nat, nat) widget list \<times> nat)))"
proof -
  have s: "show_nat 0 = ''0''" "show_nat (Suc 0) = ''1''" "show_nat (Suc (Suc 0)) = ''2''"
    by code_simp+
  have u: "[0..<3] = [0, 1, 2]"
    by code_simp
  show ?thesis
    using widget_ids_unique [of 0
        "[(None, None), (Some ''Perspective'', None), (Some ''a-1'', Some sample_options)]"
        sample_utils, where ?'t = nat and ?'d = nat]
    by (simp add: sample_utils_def s u del: construct_all.simps)
qed

text \<open>
  Claim C8 as it is stated fails where the counter has reached \<open>2\<^sup>5\<^sup>3\<close>: two widgets
  made one after the other with the same name there have the same id.
\<close>

theorem widget_ids_unique_counterexample:
  "map widget_id (fst (construct_all sample_utils [(None, None), (None, None)] 9007199254740992
       :: (nat, nat) widget list \<times> nat))
     = [''Perspective-9007199254740992'', ''Perspective-9007199254740992''] \<and>
   \<not> distinct (map widget_id (fst (construct_all sample_utils [(None, None), (None, None)]
       9007199254740992 :: (nat, nat) widget list \<times> nat)))"
proof -
  have p: "plus_one 9007199254740992 = 9007199254740992"
    by (simp add: plus_one_def)
  have s: "show_nat 9007199254740992 = ''9007199254740992''"
    by (simp add: show_nat.simps [of "numeral n" for n] digit_char_def)
  have "map widget_id (fst (construct_all sample_utils [(None, None), (None, None)]
       9007199254740992 :: (nat, nat) widget list \<times> nat))
     = [''Perspective-9007199254740992'', ''Perspective-9007199254740992'']"
    by (simp add: ids_Cons p s sample_utils_def del: construct_all.simps(2))
  then show ?thesis
    by simp
qed

section \<open>Attributes of the viewer\<close>

lemma JSON_parse_null: "JSON_parse None = Inr JNull"
  by (simp add: JSON_parse_def skip_ws_def is_ws_def is_digit_def)

lemma getAttribute_simps [simp]:
  "getAttribute name (setAttribute name v e) = Some v"
  "getAttribute name (removeAttribute name e) = None"
  "name \<noteq> name' \<Longrightarrow> getAttribute name (setAttribute name' v e) = getAttribute name e"
  "name \<noteq> name' \<Longrightarrow> getAttribute name (removeAttribute name' e) = getAttribute name e"
  "getAttribute name (invoke c vw) = getAttribute name vw"
  by (simp_all add: getAttribute_def setAttribute_def removeAttribute_def invoke_def
      update_conv' delete_conv')

lemma u_viewer_on_viewer [simp]: "u_viewer (on_viewer f w) = f (u_viewer w)"
  by (simp add: on_viewer_def)

lemma u_viewer_on_node [simp]: "u_viewer (on_node f w) = u_viewer w"
  by (simp add: on_node_def)

lemma getAttribute_frame [simp]:
  "getAttribute name (u_viewer (set_server b w)) = getAttribute name (u_viewer w)"
  "getAttribute name (u_viewer (set_client b w)) = getAttribute name (u_viewer w)"
  "getAttribute name (u_viewer (set_dark U b w)) = getAttribute name (u_viewer w)"
  "getAttribute name (u_viewer (set_plugin_config c w)) = getAttribute name (u_viewer w)"
  "name \<noteq> ''editable'' \<Longrightarrow>
     getAttribute name (u_viewer (set_editable b w)) = getAttribute name (u_viewer w)"
  "name \<noteq> ''plugin'' \<Longrightarrow>
     getAttribute name (u_viewer (set_plugin p w)) = getAttribute name (u_viewer w)"
  "name \<noteq> ''row-pivots'' \<Longrightarrow>
     getAttribute name (u_viewer (set_row_pivots xs w)) = getAttribute name (u_viewer w)"
  "name \<noteq> ''column-pivots'' \<Longrightarrow>
     getAttribute name (u_viewer (set_column_pivots xs w)) = getAttribute name (u_viewer w)"
  "name \<noteq> ''sort'' \<Longrightarrow>
     getAttribute name (u_viewer (set_sort xs w)) = getAttribute name (u_viewer w)"
  "name \<noteq> ''columns'' \<Longrightarrow>
     getAttribute name (u_viewer (set_columns xs w)) = getAttribute name (u_viewer w)"
  "name \<noteq> ''selectable'' \<Longrightarrow>
     getAttribute name (u_viewer (set_selectable b w)) = getAttribute name (u_viewer w)"
  "name \<noteq> ''aggregates'' \<Longrightarrow>
     getAttribute name (u_viewer (set_aggregates ps w)) = getAttribute name (u_viewer w)"
  "name \<noteq> ''expressions'' \<Longrightarrow>
     getAttribute name (u_viewer (set_expressions xs w)) = getAttribute name (u_viewer w)"
  "name \<noteq> ''filters'' \<Longrightarrow>
     getAttribute name (u_viewer (set_filters xs w)) = getAttribute name (u_viewer w)"
  by (simp_all add: set_server_def set_client_def set_dark_def set_editable_def set_plugin_def
      set_plugin_config_def set_row_pivots_def set_column_pivots_def set_sort_def
      set_columns_def set_selectable_def set_aggregates_def set_expressions_def
      set_filters_def Let_def getAttribute_def setAttribute_def removeAttribute_def
      on_viewer_def on_node_def invoke_def update_conv' delete_conv')

section \<open>Defaults of the options\<close>



text \<open>A setter leaves the cached fields of the setters before it as they are.\<close>

lemma cached_on_viewer [simp]:
  "u_server (on_viewer f w) = u_server w" "u_server (on_node g w) = u_server w"
  "u_client (on_viewer f w) = u_client w" "u_client (on_node g w) = u_client w"
  "u_dark (on_viewer f w) = u_dark w" "u_dark (on_node g w) = u_dark w"
  "u_editable (on_viewer f w) = u_editable w" "u_editable (on_node g w) = u_editable w"
  by (simp_all add: on_viewer_def on_node_def)

lemma cached_assigned [simp]:
  "u_server (set_server b w) = Some b"
  "u_client (set_client b w) = Some b"
  "u_dark (set_dark U b w) = Some b"
  "u_editable (set_editable b w) = Some b"
  by (simp_all add: set_server_def set_client_def set_dark_def set_editable_def Let_def)

lemma cached_frame [simp]:
  "u_server (set_client b w) = u_server w"
  "u_server (set_dark U b w) = u_server w"
  "u_server (set_editable b w) = u_server w"
  "u_server (set_plugin p w) = u_server w"
  "u_server (set_plugin_config c w) = u_server w"
  "u_server (set_row_pivots xs w) = u_server w"
  "u_server (set_column_pivots xs w) = u_server w"
  "u_server (set_sort xs w) = u_server w"
  "u_server (set_columns xs w) = u_server w"
  "u_server (set_selectable b w) = u_server w"
  "u_server (set_aggregates ps w) = u_server w"
  "u_server (set_expressions xs w) = u_server w"
  "u_server (set_filters xs w) = u_server w"
  "u_client (set_dark U b w) = u_client w"
  "u_client (set_editable b w) = u_client w"
  "u_client (set_plugin p w) = u_client w"
  "u_client (set_plugin_config c w) = u_client w"
  "u_client (set_row_pivots xs w) = u_client w"
  "u_client (set_column_pivots xs w) = u_client w"
  "u_client (set_sort xs w) = u_client w"
  "u_client (set_columns xs w) = u_client w"
  "u_client (set_selectable b w) = u_client w"
  "u_client (set_aggregates ps w) = u_client w"
  "u_client (set_expressions xs w) = u_client w"
  "u_client (set_filters xs w) = u_client w"
  "u_dark (set_editable b w) = u_dark w"
  "u_dark (set_plugin p w) = u_dark w"
  "u_dark (set_plugin_config c w) = u_dark w"
  "u_dark (set_row_pivots xs w) = u_dark w"
  "u_dark (set_column_pivots xs w) = u_dark w"
  "u_dark (set_sort xs w) = u_dark w"
  "u_dark (set_columns xs w) = u_dark w"
  "u_dark (set_selectable b w) = u_dark w"
  "u_dark (set_aggregates ps w) = u_dark w"
  "u_dark (set_expressions xs w) = u_dark w"
  "u_dark (set_filters xs w) = u_dark w"
  "u_editable (set_plugin p w) = u_editable w"
  "u_editable (set_plugin_config c w) = u_editable w"
  "u_editable (set_row_pivots xs w) = u_editable w"
  "u_editable (set_column_pivots xs w) = u_editable w"
  "u_editable (set_sort xs w) = u_editable w"
  "u_editable (set_columns xs w) = u_editable w"
  "u_editable (set_selectable b w) = u_editable w"
  "u_editable (set_aggregates ps w) = u_editable w"
  "u_editable (set_expressions xs w) = u_editable w"
  "u_editable (set_filters xs w) = u_editable w"
  by (simp_all add: set_client_def set_dark_def set_editable_def set_plugin_def
      set_plugin_config_def set_row_pivots_def set_column_pivots_def set_sort_def
      set_columns_def set_selectable_def set_aggregates_def set_expressions_def
      set_filters_def Let_def)










section \<open>Empty collections\<close>

text \<open>
  Claim C2, as the code has it. Assigning the empty array to \<^verbatim>\<open>columns\<close>,
  \<^verbatim>\<open>expressions\<close> or \<^verbatim>\<open>filters\<close> removes the attribute. Assigning the empty array to
  \<^verbatim>\<open>row_pivots\<close>, \<^verbatim>\<open>column_pivots\<close> or \<^verbatim>\<open>sort\<close> sets the attribute to the text
  \<^verbatim>\<open>[]\<close>, and assigning the empty object to \<^verbatim>\<open>aggregates\<close> sets it to \<^verbatim>\<open>{}\<close>.
\<close>

theorem empty_collection_assignment:
  fixes w :: "('t, 'd) widget"
  shows "\<not> hasAttribute ''columns'' (u_viewer (set_columns [] w)) \<and>
         \<not> hasAttribute ''expressions'' (u_viewer (set_expressions [] w)) \<and>
         \<not> hasAttribute ''filters'' (u_viewer (set_filters [] w)) \<and>
         getAttribute ''row-pivots'' (u_viewer (set_row_pivots [] w)) = Some ''[]'' \<and>
         getAttribute ''column-pivots'' (u_viewer (set_column_pivots [] w)) = Some ''[]'' \<and>
         getAttribute ''sort'' (u_viewer (set_sort [] w)) = Some ''[]'' \<and>
         getAttribute ''aggregates'' (u_viewer (set_aggregates [] w)) = Some ''{}''"
  by (simp add: set_columns_def set_expressions_def set_filters_def set_row_pivots_def
      set_column_pivots_def set_sort_def set_aggregates_def hasAttribute_def
      removeAttribute_def delete_conv')

text \<open>
  Claim C2 as it is stated fails for \<^verbatim>\<open>row_pivots\<close>: after the empty array is
  assigned, the element carries the attribute \<^verbatim>\<open>row-pivots\<close>.
\<close>

theorem empty_collection_removal_counterexample:
  "hasAttribute ''row-pivots'' (u_viewer (set_row_pivots [] sample_widget)) \<and>
   getAttribute ''row-pivots'' (u_viewer (set_row_pivots [] sample_widget)) = Some ''[]''"
  by (simp add: set_row_pivots_def hasAttribute_def getAttribute_def setAttribute_def update_conv'
      on_viewer_def)

text \<open>
  Claim C10. After the empty array is assigned to \<^verbatim>\<open>columns\<close>, \<^verbatim>\<open>filters\<close> or
  \<^verbatim>\<open>expressions\<close>, reading the property gives null: the attribute is removed, and the
  getter parses the null that the missing attribute reads as.
\<close>

theorem empty_assignment_reads_null:
  fixes w :: "('t, 'd) widget"
  shows "get_columns (set_columns [] w) = Inr JNull \<and>
         get_filters (set_filters [] w) = Inr JNull \<and>
         get_expressions (set_expressions [] w) = Inr JNull"
  by (simp add: get_columns_def set_columns_def get_filters_def set_filters_def
      get_expressions_def set_expressions_def JSON_parse_null)

section \<open>The bound of the parser\<close>

text \<open>
  Every value that the parser returns has taken at least one character of the text, so
  the bound on the number of calls that \<open>JSON_parse\<close> gives is never reached: the
  parser returns a value or an error of the text, for every text.
\<close>

lemma length_skip_ws: "length (skip_ws s) \<le> length s"
  by (simp add: skip_ws_def length_dropWhile_le)

lemma skip_ws_Cons_length: "skip_ws s = c # cs \<Longrightarrow> length cs < length s"
  using length_skip_ws [of s] by simp

lemma prepend_Inr:
  "prepend p res = Inr (k, r) \<Longrightarrow> \<exists>k'. res = Inr (k', r)"
  by (auto simp add: prepend_def split: sum.splits)

lemma prepend_Inl: "prepend p res = Inl e \<Longrightarrow> res = Inl e"
  by (auto simp add: prepend_def split: sum.splits)

text \<open>
  A step of \<open>parse_chars\<close>: what it returns on a text is what it returns on a shorter
  one, the end of the string and the errors of the step apart.
\<close>

lemma parse_chars_unfold:
  "parse_chars (c # cs) = res \<Longrightarrow>
     res = Inr ([], cs) \<or> res = Inl SyntaxError \<or> res = Inl Unsupported \<or>
     (\<exists>p t. length t \<le> length cs \<and> res = prepend p (parse_chars t))"
proof -
  assume a: "parse_chars (c # cs) = res"
  have here: "\<exists>p t. length t \<le> length cs \<and> prepend q (parse_chars t') = prepend p (parse_chars t)"
    if "length t' \<le> length cs" for q t'
    using that by blast
  show ?thesis
  proof (cases "c = dquote")
    case True
    with a show ?thesis by simp
  next
    case nq: False
    show ?thesis
    proof (cases "c = bslash")
      case False
      with nq a have "res = Inl SyntaxError \<or> res = prepend [c] (parse_chars cs)"
        by (auto split: if_splits)
      then show ?thesis
        using here [of cs "[c]"] by auto
    next
      case True
      show ?thesis
      proof (cases cs)
        case Nil
        with True nq a show ?thesis by simp
      next
        case (Cons e t)
        show ?thesis
        proof (cases "e = CHR ''u''")
          case False
          with True nq a Cons have
            "res = Inl SyntaxError \<or> (\<exists>x. res = prepend [x] (parse_chars t))"
            by (auto split: option.splits)
          then show ?thesis
            using here [of t] by (auto simp add: Cons)
        next
          case u: True
          with True nq a Cons have
            "res = Inl SyntaxError \<or> res = Inl Unsupported \<or>
             (\<exists>p. res = prepend p (parse_chars (drop 4 t))) \<or>
             (\<exists>p. res = prepend p (parse_chars (drop 10 t)))"
            by (auto split: option.splits if_splits)
          then show ?thesis
            using here [of "drop 4 t"] here [of "drop 10 t"] by (auto simp add: Cons)
        qed
      qed
    qed
  qed
qed

lemma parse_chars_consumes:
  "parse_chars s = Inr (k, r) \<Longrightarrow> length r < length s"
proof (induction s arbitrary: k rule: length_induct)
  case (1 s)
  from "1.prems" obtain c cs where s: "s = c # cs"
    by (cases s) auto
  from "1.prems" consider "r = cs"
    | p t where "length t \<le> length cs" "Inr (k, r) = prepend p (parse_chars t)"
    using parse_chars_unfold [of c cs "Inr (k, r)"] unfolding s by auto
  then show ?case
  proof cases
    case 1
    then show ?thesis by (simp add: s)
  next
    case 2
    then obtain k' where "parse_chars t = Inr (k', r)"
      using prepend_Inr [of p "parse_chars t" k r] by auto
    with "1.IH" 2(1) have "length r < length t"
      by (simp add: s)
    with 2(1) show ?thesis by (simp add: s)
  qed
qed

lemma parse_chars_fuel: "parse_chars s \<noteq> Inl OutOfFuel"
proof (induction s rule: length_induct)
  case (1 s)
  show ?case
  proof (cases s)
    case Nil
    then show ?thesis by simp
  next
    case (Cons c cs)
    show ?thesis
    proof
      assume a: "parse_chars s = Inl OutOfFuel"
      then obtain p t where t: "length t \<le> length cs"
        and "Inl OutOfFuel = prepend p (parse_chars t)"
        using parse_chars_unfold [of c cs "Inl OutOfFuel"] unfolding Cons by auto
      then have "parse_chars t = Inl OutOfFuel"
        using prepend_Inl [of p "parse_chars t" OutOfFuel] by simp
      moreover from "1.IH" t have "parse_chars t \<noteq> Inl OutOfFuel"
        by (simp add: Cons)
      ultimately show False by simp
    qed
  qed
qed

lemma number_fraction_length:
  "number_fraction r = Some (fs, r2) \<Longrightarrow> length r2 \<le> length r"
proof -
  have "length (dropWhile is_digit (tl r)) \<le> length r"
    using length_dropWhile_le [of is_digit "tl r"] by simp
  then show "number_fraction r = Some (fs, r2) \<Longrightarrow> length r2 \<le> length r"
    by (auto simp add: number_fraction_def split: if_splits)
qed

lemma number_exponent_length:
  "number_exponent r = Some (e, r3) \<Longrightarrow> length r3 \<le> length r"
proof -
  have "length (dropWhile is_digit (tl r)) \<le> length r"
    "length (dropWhile is_digit (tl (tl r))) \<le> length r"
    using length_dropWhile_le [of is_digit "tl r"] length_dropWhile_le [of is_digit "tl (tl r)"]
    by simp_all
  then show "number_exponent r = Some (e, r3) \<Longrightarrow> length r3 \<le> length r"
    by (auto simp add: number_exponent_def Let_def split: if_splits)
qed

lemma parse_number_consumes:
  "parse_number s = Inr (v, r) \<Longrightarrow> length r < length s"
proof -
  assume a: "parse_number s = Inr (v, r)"
  define s1 where "s1 = (if s \<noteq> [] \<and> hd s = CHR ''-'' then tl s else s)"
  from a have nz: "takeWhile is_digit s1 \<noteq> []"
    by (auto simp add: parse_number_def Let_def s1_def split: if_splits)
  from a obtain fs r2 e where
    f: "number_fraction (dropWhile is_digit s1) = Some (fs, r2)" and
    x: "number_exponent r2 = Some (e, r)"
    by (auto simp add: parse_number_def Let_def s1_def
        split: if_splits option.splits prod.splits)
  from nz obtain d ds where "takeWhile is_digit s1 = d # ds"
    by (cases "takeWhile is_digit s1") auto
  then have "length s1 = Suc (length ds) + length (dropWhile is_digit s1)"
    by (metis length_append length_Cons takeWhile_dropWhile_id)
  then have "length (dropWhile is_digit s1) < length s1"
    by simp
  moreover have "length s1 \<le> length s"
    by (simp add: s1_def)
  ultimately show ?thesis
    using number_fraction_length [OF f] number_exponent_length [OF x] by simp
qed

lemma parse_number_fuel: "parse_number s \<noteq> Inl OutOfFuel"
  by (simp add: parse_number_def Let_def split: option.splits prod.splits)

lemma literal_consumes:
  assumes "take k s = lit" and "length lit = k" and "0 < k"
  shows "length (drop k s) < length s"
proof -
  from assms(1,2) have "length (take k s) = k"
    by simp
  then have "k \<le> length s"
    by simp
  with assms(3) show ?thesis by simp
qed

lemma parse_value_consumes_step:
  assumes E: "\<And>t xs r. parse_elements m t = Inr (xs, r) \<Longrightarrow> length r < length t"
    and M: "\<And>t ps r. parse_members m t = Inr (ps, r) \<Longrightarrow> length r < length t"
    and a: "parse_value (Suc m) s = Inr (v, r)"
  shows "length r < length s"
proof -
  from a obtain c cs where sk: "skip_ws s = c # cs"
    by (cases "skip_ws s") auto
  have lcs: "length cs < length s"
    using sk by (rule skip_ws_Cons_length)
  consider (arr) "c = CHR ''[''" | (obj) "c \<noteq> CHR ''[''" "c = CHR ''{''"
    | (str) "c \<noteq> CHR ''[''" "c \<noteq> CHR ''{''" "c = dquote"
    | (num) "c \<noteq> CHR ''[''" "c \<noteq> CHR ''{''" "c \<noteq> dquote" "c = CHR ''-'' \<or> is_digit c"
    | (lit) "c \<noteq> CHR ''[''" "c \<noteq> CHR ''{''" "c \<noteq> dquote" "\<not> (c = CHR ''-'' \<or> is_digit c)"
    by blast
  then show ?thesis
  proof cases
    case arr
    with a sk obtain d ds where sk2: "skip_ws cs = d # ds"
      by (cases "skip_ws cs") auto
    have lds: "length ds < length cs"
      using sk2 by (rule skip_ws_Cons_length)
    show ?thesis
    proof (cases "d = CHR '']''")
      case True
      with a sk arr sk2 have "r = ds" by simp
      with lds lcs show ?thesis by simp
    next
      case False
      with a sk arr sk2 obtain xs where "parse_elements m (d # ds) = Inr (xs, r)"
        by (auto split: sum.splits)
      from E [OF this] lds lcs show ?thesis by simp
    qed
  next
    case obj
    with a sk obtain d ds where sk2: "skip_ws cs = d # ds"
      by (cases "skip_ws cs") auto
    have lds: "length ds < length cs"
      using sk2 by (rule skip_ws_Cons_length)
    show ?thesis
    proof (cases "d = CHR ''}''")
      case True
      with a sk obj sk2 have "r = ds" by simp
      with lds lcs show ?thesis by simp
    next
      case False
      with a sk obj sk2 obtain ps where "parse_members m (d # ds) = Inr (ps, r)"
        by (auto split: sum.splits)
      from M [OF this] lds lcs show ?thesis by simp
    qed
  next
    case str
    with a sk obtain k where "parse_chars cs = Inr (k, r)"
      by (auto split: sum.splits)
    from parse_chars_consumes [OF this] lcs show ?thesis by simp
  next
    case num
    with a sk have "parse_number (c # cs) = Inr (v, r)"
      by auto
    from parse_number_consumes [OF this] lcs show ?thesis by simp
  next
    case lit
    with a sk consider "take 4 (c # cs) = ''null''" "r = drop 4 (c # cs)"
      | "take 4 (c # cs) = ''true''" "r = drop 4 (c # cs)"
      | "take 5 (c # cs) = ''false''" "r = drop 5 (c # cs)"
      by (auto split: if_splits)
    then have "length r < length (c # cs)"
    proof cases
      case 1
      then show ?thesis using literal_consumes [of 4 "c # cs" "''null''"] by simp
    next
      case 2
      then show ?thesis using literal_consumes [of 4 "c # cs" "''true''"] by simp
    next
      case 3
      then show ?thesis using literal_consumes [of 5 "c # cs" "''false''"] by simp
    qed
    with lcs show ?thesis by simp
  qed
qed

lemma parse_elements_consumes_step:
  assumes V: "\<And>t v r. parse_value m t = Inr (v, r) \<Longrightarrow> length r < length t"
    and E: "\<And>t xs r. parse_elements m t = Inr (xs, r) \<Longrightarrow> length r < length t"
    and a: "parse_elements (Suc m) s = Inr (xs, r)"
  shows "length r < length s"
proof -
  from a obtain x r1 where v: "parse_value m s = Inr (x, r1)"
    by (auto split: sum.splits)
  from a v obtain c cs where sk: "skip_ws r1 = c # cs"
    by (cases "skip_ws r1") auto
  have l: "length cs < length r1" "length r1 < length s"
    using sk V [OF v] by (auto dest: skip_ws_Cons_length)
  show ?thesis
  proof (cases "c = CHR '']''")
    case True
    with a v sk have "r = cs" by simp
    with l show ?thesis by simp
  next
    case False
    with a v sk obtain ys where "parse_elements m cs = Inr (ys, r)"
      by (auto split: sum.splits if_splits)
    from E [OF this] l show ?thesis by simp
  qed
qed

lemma parse_members_consumes_step:
  assumes V: "\<And>t v r. parse_value m t = Inr (v, r) \<Longrightarrow> length r < length t"
    and M: "\<And>t ps r. parse_members m t = Inr (ps, r) \<Longrightarrow> length r < length t"
    and a: "parse_members (Suc m) s = Inr (ps, r)"
  shows "length r < length s"
proof -
  from a obtain c cs where sk: "skip_ws s = c # cs"
    by (cases "skip_ws s") auto
  from a sk have c: "c = dquote"
    by (auto split: if_splits)
  from a sk c obtain k r1 where k: "parse_chars cs = Inr (k, r1)"
    by (auto split: sum.splits)
  from a sk c k obtain c2 cs2 where sk2: "skip_ws r1 = c2 # cs2"
    by (cases "skip_ws r1") auto
  from a sk c k sk2 have c2: "c2 = CHR '':''"
    by (auto split: if_splits)
  from a sk c k sk2 c2 obtain v r2 where v: "parse_value m cs2 = Inr (v, r2)"
    by (auto split: sum.splits)
  from a sk c k sk2 c2 v obtain c3 cs3 where sk3: "skip_ws r2 = c3 # cs3"
    by (cases "skip_ws r2") auto
  have l: "length cs3 < length r2" "length r2 < length cs2" "length cs2 < length r1"
    "length r1 < length cs" "length cs < length s"
    using sk sk2 sk3 V [OF v] parse_chars_consumes [OF k] by (auto dest: skip_ws_Cons_length)
  show ?thesis
  proof (cases "c3 = CHR ''}''")
    case True
    with a sk c k sk2 c2 v sk3 have "r = cs3" by simp
    with l show ?thesis by simp
  next
    case False
    with a sk c k sk2 c2 v sk3 obtain qs where "parse_members m cs3 = Inr (qs, r)"
      by (auto split: sum.splits if_splits)
    from M [OF this] l show ?thesis by simp
  qed
qed

lemma parse_consumes_all:
  "(\<forall>s v r. parse_value n s = Inr (v, r) \<longrightarrow> length r < length s) \<and>
   (\<forall>s xs r. parse_elements n s = Inr (xs, r) \<longrightarrow> length r < length s) \<and>
   (\<forall>s ps r. parse_members n s = Inr (ps, r) \<longrightarrow> length r < length s)"
proof (induction n)
  case 0
  show ?case by simp
next
  case (Suc m)
  then have V: "\<And>t v r. parse_value m t = Inr (v, r) \<Longrightarrow> length r < length t"
    and E: "\<And>t xs r. parse_elements m t = Inr (xs, r) \<Longrightarrow> length r < length t"
    and M: "\<And>t ps r. parse_members m t = Inr (ps, r) \<Longrightarrow> length r < length t"
    by blast+
  show ?case
  proof (intro conjI allI impI)
    fix s v r
    assume "parse_value (Suc m) s = Inr (v, r)"
    with E M show "length r < length s"
      by (rule parse_value_consumes_step)
  next
    fix s xs r
    assume "parse_elements (Suc m) s = Inr (xs, r)"
    with V E show "length r < length s"
      by (rule parse_elements_consumes_step)
  next
    fix s ps r
    assume "parse_members (Suc m) s = Inr (ps, r)"
    with V M show "length r < length s"
      by (rule parse_members_consumes_step)
  qed
qed

lemma parse_value_consumes: "parse_value n s = Inr (v, r) \<Longrightarrow> length r < length s"
  using parse_consumes_all by blast

lemma parse_value_fuel_step:
  assumes E: "\<And>t. 2 * length t + 2 \<le> m \<Longrightarrow> parse_elements m t \<noteq> Inl OutOfFuel"
    and M: "\<And>t. 2 * length t + 2 \<le> m \<Longrightarrow> parse_members m t \<noteq> Inl OutOfFuel"
    and n: "2 * length s + 1 \<le> Suc m"
  shows "parse_value (Suc m) s \<noteq> Inl OutOfFuel"
proof (cases "skip_ws s")
  case Nil
  then show ?thesis by simp
next
  case (Cons c cs)
  have lcs: "length cs < length s"
    using Cons by (rule skip_ws_Cons_length)
  have inner: "parse_elements m (d # ds) \<noteq> Inl OutOfFuel"
    "parse_members m (d # ds) \<noteq> Inl OutOfFuel" if "skip_ws cs = d # ds" for d ds
  proof -
    from that have "length ds < length cs"
      by (rule skip_ws_Cons_length)
    with lcs n have "2 * length (d # ds) + 2 \<le> m"
      by simp
    then show "parse_elements m (d # ds) \<noteq> Inl OutOfFuel"
      "parse_members m (d # ds) \<noteq> Inl OutOfFuel"
      by (rule E, rule M)
  qed
  consider (arr) "c = CHR ''[''" | (obj) "c \<noteq> CHR ''[''" "c = CHR ''{''"
    | (str) "c \<noteq> CHR ''[''" "c \<noteq> CHR ''{''" "c = dquote"
    | (num) "c \<noteq> CHR ''[''" "c \<noteq> CHR ''{''" "c \<noteq> dquote" "c = CHR ''-'' \<or> is_digit c"
    | (lit) "c \<noteq> CHR ''[''" "c \<noteq> CHR ''{''" "c \<noteq> dquote" "\<not> (c = CHR ''-'' \<or> is_digit c)"
    by blast
  then show ?thesis
  proof cases
    case arr
    show ?thesis
    proof (cases "skip_ws cs")
      case Nil
      with Cons arr show ?thesis by simp
    next
      case sk2: (Cons d ds)
      from inner(1) [OF sk2] Cons arr sk2 show ?thesis
        by (auto split: sum.splits)
    qed
  next
    case obj
    show ?thesis
    proof (cases "skip_ws cs")
      case Nil
      with Cons obj show ?thesis by simp
    next
      case sk2: (Cons d ds)
      from inner(2) [OF sk2] Cons obj sk2 show ?thesis
        by (auto split: sum.splits)
    qed
  next
    case str
    with Cons parse_chars_fuel [of cs] show ?thesis
      by (auto split: sum.splits)
  next
    case num
    with Cons parse_number_fuel [of "c # cs"] show ?thesis
      by auto
  next
    case lit
    with Cons show ?thesis
      by simp
  qed
qed

lemma parse_elements_fuel_step:
  assumes V: "\<And>t. 2 * length t + 1 \<le> m \<Longrightarrow> parse_value m t \<noteq> Inl OutOfFuel"
    and E: "\<And>t. 2 * length t + 2 \<le> m \<Longrightarrow> parse_elements m t \<noteq> Inl OutOfFuel"
    and n: "2 * length s + 2 \<le> Suc m"
  shows "parse_elements (Suc m) s \<noteq> Inl OutOfFuel"
proof (cases "parse_value m s")
  case (Inl e)
  moreover from n have "parse_value m s \<noteq> Inl OutOfFuel"
    by (intro V) simp
  ultimately show ?thesis by simp
next
  case (Inr p)
  obtain x r1 where p: "p = (x, r1)" by (cases p)
  have l1: "length r1 < length s"
    using Inr unfolding p by (rule parse_value_consumes)
  show ?thesis
  proof (cases "skip_ws r1")
    case Nil
    with Inr p show ?thesis by simp
  next
    case (Cons c cs)
    have "length cs < length r1"
      using Cons by (rule skip_ws_Cons_length)
    with l1 n have "2 * length cs + 2 \<le> m"
      by simp
    then have "parse_elements m cs \<noteq> Inl OutOfFuel"
      by (rule E)
    with Inr p Cons show ?thesis
      by (auto split: sum.splits)
  qed
qed

lemma parse_members_fuel_step:
  assumes V: "\<And>t. 2 * length t + 1 \<le> m \<Longrightarrow> parse_value m t \<noteq> Inl OutOfFuel"
    and M: "\<And>t. 2 * length t + 2 \<le> m \<Longrightarrow> parse_members m t \<noteq> Inl OutOfFuel"
    and n: "2 * length s + 2 \<le> Suc m"
  shows "parse_members (Suc m) s \<noteq> Inl OutOfFuel"
proof (cases "skip_ws s")
  case Nil
  then show ?thesis by simp
next
  case (Cons c cs)
  have lcs: "length cs < length s"
    using Cons by (rule skip_ws_Cons_length)
  show ?thesis
  proof (cases "parse_chars cs")
    case (Inl e)
    with Cons parse_chars_fuel [of cs] show ?thesis by simp
  next
    case (Inr p)
    obtain k r1 where p: "p = (k, r1)" by (cases p)
    have l1: "length r1 < length cs"
      using Inr unfolding p by (rule parse_chars_consumes)
    show ?thesis
    proof (cases "skip_ws r1")
      case Nil
      with Cons Inr p show ?thesis by simp
    next
      case sk2: (Cons c2 cs2)
      have l2: "length cs2 < length r1"
        using sk2 by (rule skip_ws_Cons_length)
      show ?thesis
      proof (cases "parse_value m cs2")
        case (Inl e)
        moreover from n lcs l1 l2 have "parse_value m cs2 \<noteq> Inl OutOfFuel"
          by (intro V) simp
        ultimately show ?thesis
          using Cons Inr p sk2 by simp
      next
        case v: (Inr q)
        obtain v r2 where q: "q = (v, r2)" by (cases q)
        have l3: "length r2 < length cs2"
          using v unfolding q by (rule parse_value_consumes)
        show ?thesis
        proof (cases "skip_ws r2")
          case Nil
          with Cons Inr p sk2 v q show ?thesis by simp
        next
          case sk3: (Cons c3 cs3)
          have "length cs3 < length r2"
            using sk3 by (rule skip_ws_Cons_length)
          with n lcs l1 l2 l3 have "2 * length cs3 + 2 \<le> m"
            by simp
          then have "parse_members m cs3 \<noteq> Inl OutOfFuel"
            by (rule M)
          with Cons Inr p sk2 v q sk3 show ?thesis
            by (auto split: sum.splits)
        qed
      qed
    qed
  qed
qed

lemma parse_fuel_all:
  "(\<forall>s. 2 * length s + 1 \<le> n \<longrightarrow> parse_value n s \<noteq> Inl OutOfFuel) \<and>
   (\<forall>s. 2 * length s + 2 \<le> n \<longrightarrow> parse_elements n s \<noteq> Inl OutOfFuel) \<and>
   (\<forall>s. 2 * length s + 2 \<le> n \<longrightarrow> parse_members n s \<noteq> Inl OutOfFuel)"
proof (induction n)
  case 0
  show ?case by simp
next
  case (Suc m)
  then have V: "\<And>t. 2 * length t + 1 \<le> m \<Longrightarrow> parse_value m t \<noteq> Inl OutOfFuel"
    and E: "\<And>t. 2 * length t + 2 \<le> m \<Longrightarrow> parse_elements m t \<noteq> Inl OutOfFuel"
    and M: "\<And>t. 2 * length t + 2 \<le> m \<Longrightarrow> parse_members m t \<noteq> Inl OutOfFuel"
    by blast+
  show ?case
  proof (intro conjI allI impI)
    fix s :: string
    assume "2 * length s + 1 \<le> Suc m"
    with E M show "parse_value (Suc m) s \<noteq> Inl OutOfFuel"
      by (rule parse_value_fuel_step)
  next
    fix s :: string
    assume "2 * length s + 2 \<le> Suc m"
    with V E show "parse_elements (Suc m) s \<noteq> Inl OutOfFuel"
      by (rule parse_elements_fuel_step)
  next
    fix s :: string
    assume "2 * length s + 2 \<le> Suc m"
    with V M show "parse_members (Suc m) s \<noteq> Inl OutOfFuel"
      by (rule parse_members_fuel_step)
  qed
qed

lemma JSON_parse_fuel: "JSON_parse text \<noteq> Inl OutOfFuel"
proof -
  have "parse_value (2 * length s + 1) s \<noteq> Inl OutOfFuel" for s
    using parse_fuel_all [of "2 * length s + 1"] by simp
  then show ?thesis
    by (auto simp add: JSON_parse_def Let_def split: sum.splits option.splits)
qed

section \<open>Parsing what was serialized\<close>




























lemma is_ws_punctuation [simp]:
  "\<not> is_ws (CHR '']'')" "\<not> is_ws (CHR ''}'')" "\<not> is_ws (CHR '','')" "\<not> is_ws (CHR '':'')"
  "\<not> is_ws dquote"
  by (simp_all add: is_ws_def)







lemma terminated_punctuation [simp]:
  "terminated []" "terminated (CHR '','' # r)" "terminated (CHR '']'' # r)"
  "terminated (CHR ''}'' # r)"
  by (simp_all add: terminated_def)




section \<open>Marshaling to attributes\<close>





end
